theory Spec2Isabelle
  imports Complex_Main "HOL-Library.Sublist"
begin

section \<open>The admin guard of \<^verbatim>\<open>app.py\<close> and \<^verbatim>\<open>server.py\<close>\<close>

text \<open>
  Both files hold the same gating logic around the route \<^verbatim>\<open>/admin\<close>: the helpers
  \<^verbatim>\<open>client_ip\<close>, \<^verbatim>\<open>is_locked\<close>, \<^verbatim>\<open>record_failed\<close>, \<^verbatim>\<open>rate_limit_ok\<close>, \<^verbatim>\<open>check_password\<close> and the
  decorator \<^verbatim>\<open>require_basic_auth\<close>. The three module-level dictionaries are the state; every
  helper takes the state and returns the new one. A reading of \<^verbatim>\<open>time.time()\<close> is an
  argument of the helper that reads the clock.

  Conventions of the embedding.
  \<^item> A Python \<^verbatim>\<open>str\<close> is a \<^typ>\<open>string\<close>; its characters stand for the code points below 256.
    There is no surrogate among them, so \<^verbatim>\<open>encode('utf-8')\<close> does not raise. A \<^verbatim>\<open>bytes\<close> value
    is a list of numbers below 256.
  \<^item> A moment is a \<^typ>\<open>real\<close>: \<^verbatim>\<open>time.time()\<close> returns a float, and the arithmetic on
    moments (\<^verbatim>\<open>now - t\<close>, \<^verbatim>\<open>now + LOCKOUT_PERIOD\<close>) is taken as exact.
  \<^item> The configuration constants read from the environment are the fields of a record.
  \<^item> \<^verbatim>\<open>bcrypt.checkpw\<close> is a parameter: a function that returns a boolean or raises.
  \<^item> Log lines are not part of the model.
\<close>

subsection \<open>Values\<close>

type_synonym moment = real
type_synonym bytes = "nat list"

datatype py_exn = TypeError | ValueError | AttributeError | OtherError string

record config =
  ADMIN_USER :: string
  ADMIN_PW_HASH_RAW :: "string option"
  LOCKOUT_THRESHOLD :: int
  LOCKOUT_PERIOD :: int
  RATE_LIMIT_WINDOW :: int
  RATE_LIMIT_MAX :: int

record state =
  failed_attempts :: "string \<rightharpoonup> moment list"
  lockouts :: "string \<rightharpoonup> moment"
  rate_windows :: "string \<rightharpoonup> moment list"

text \<open>The three dictionaries when the module has just been loaded.\<close>

definition initial_state :: state where
  "initial_state = \<lparr>failed_attempts = Map.empty, lockouts = Map.empty, rate_windows = Map.empty\<rparr>"

text \<open>\<^verbatim>\<open>request.authorization\<close>: absent, or an object whose \<^verbatim>\<open>username\<close> and \<^verbatim>\<open>password\<close>
  may each be \<^verbatim>\<open>None\<close>.\<close>

record auth =
  username :: "string option"
  password :: "string option"

record request =
  x_forwarded_for :: "string option"
  remote_addr :: "string option"
  authorization :: "auth option"

record response =
  status :: int
  body :: string
  headers :: "(string \<times> string) list"

text \<open>What the wrapped view returns to Flask: a response built by the guard, the result of
  the protected view, or an exception that leaves the decorator.\<close>

datatype 'v result = Response response | View 'v | Raise py_exn

text \<open>The comparisons a request has evaluated, in order.\<close>

datatype call = Compare_digest | Check_password

text \<open>The clock readings of one request: \<^verbatim>\<open>rate_limit_ok\<close>, \<^verbatim>\<open>is_locked\<close> and \<^verbatim>\<open>record_failed\<close> each
  call \<^verbatim>\<open>time.time()\<close> for themselves.\<close>

record clock =
  t_rate :: moment
  t_lock :: moment
  t_fail :: moment

subsection \<open>Strings and bytes\<close>

text \<open>\<^verbatim>\<open>s.encode('utf-8')\<close> on code points below 256: one byte below 128, two bytes from 128 on.\<close>

definition encode_char :: "char \<Rightarrow> bytes" where
  "encode_char c =
     (let n = (of_char c :: nat)
      in if n < 128 then [n] else [192 + n div 64, 128 + n mod 64])"

definition encode_utf8 :: "string \<Rightarrow> bytes" where
  "encode_utf8 s = concat (map encode_char s)"

definition is_ascii :: "string \<Rightarrow> bool" where
  "is_ascii s = list_all (\<lambda>c. (of_char c :: nat) < 128) s"

text \<open>\<^verbatim>\<open>hmac.compare_digest\<close> on two \<^verbatim>\<open>bytes\<close> values returns \<^verbatim>\<open>a == b\<close>. On two \<^verbatim>\<open>str\<close> values
  it raises \<^verbatim>\<open>TypeError\<close> unless both are ASCII.\<close>

definition compare_digest_bytes :: "bytes \<Rightarrow> bytes \<Rightarrow> bool" where
  "compare_digest_bytes a b = (a = b)"

definition compare_digest_str :: "string \<Rightarrow> string \<Rightarrow> py_exn + bool" where
  "compare_digest_str a b = (if is_ascii a \<and> is_ascii b then Inr (a = b) else Inl TypeError)"

text \<open>\<^verbatim>\<open>x or ''\<close> for an optional string.\<close>

definition or_empty :: "string option \<Rightarrow> string" where
  "or_empty x = (case x of None \<Rightarrow> [] | Some v \<Rightarrow> v)"

text \<open>\<^verbatim>\<open>str.isspace\<close> on the code points below 256, and \<^verbatim>\<open>str.strip()\<close>.\<close>

definition isspace :: "char \<Rightarrow> bool" where
  "isspace c =
     (let n = (of_char c :: nat)
      in (9 \<le> n \<and> n \<le> 13) \<or> (28 \<le> n \<and> n \<le> 32) \<or> n = 133 \<or> n = 160)"

definition strip :: "string \<Rightarrow> string" where
  "strip s = rev (dropWhile isspace (rev (dropWhile isspace s)))"

text \<open>\<^verbatim>\<open>lst[a:]\<close>: a negative start counts from the end, and both ends are clamped.\<close>

definition slice_from :: "int \<Rightarrow> 'a list \<Rightarrow> 'a list" where
  "slice_from a xs =
     (let n = int (length xs);
          start = (if a < 0 then max (a + n) 0 else min a n)
      in drop (nat start) xs)"

definition make_response :: "string \<Rightarrow> int \<Rightarrow> response" where
  "make_response b code = \<lparr>status = code, body = b, headers = []\<rparr>"

text \<open>\<^verbatim>\<open>resp.headers[k] = v\<close> replaces the header \<^verbatim>\<open>k\<close>.\<close>

definition set_header :: "string \<Rightarrow> string \<Rightarrow> response \<Rightarrow> response" where
  "set_header k v resp = resp\<lparr>headers := filter (\<lambda>h. fst h \<noteq> k) (headers resp) @ [(k, v)]\<rparr>"

subsection \<open>Configuration\<close>

text \<open>\<^verbatim>\<open>ADMIN_PW_HASH = ADMIN_PW_HASH_RAW.encode('utf-8') if ADMIN_PW_HASH_RAW else None\<close>\<close>

definition ADMIN_PW_HASH :: "config \<Rightarrow> bytes option" where
  "ADMIN_PW_HASH cfg =
     (case ADMIN_PW_HASH_RAW cfg of
        None \<Rightarrow> None
      | Some raw \<Rightarrow> if raw \<noteq> [] then Some (encode_utf8 raw) else None)"

subsection \<open>Helpers (the same text in both files)\<close>

definition client_ip :: "request \<Rightarrow> string" where
  "client_ip req =
     (case x_forwarded_for req of
        Some xff \<Rightarrow>
          if xff \<noteq> [] then strip (takeWhile (\<lambda>c. c \<noteq> CHR '','') xff)
          else (case remote_addr req of
                  None \<Rightarrow> ''unknown''
                | Some a \<Rightarrow> if a \<noteq> [] then a else ''unknown'')
      | None \<Rightarrow>
          (case remote_addr req of
             None \<Rightarrow> ''unknown''
           | Some a \<Rightarrow> if a \<noteq> [] then a else ''unknown''))"

text \<open>\<^verbatim>\<open>if expiry:\<close> is the truth value of a float: \<^verbatim>\<open>None\<close> and \<^verbatim>\<open>0.0\<close> are both false.\<close>

definition is_locked :: "string \<Rightarrow> moment \<Rightarrow> state \<Rightarrow> bool \<times> state" where
  "is_locked ip now s =
     (case lockouts s ip of
        None \<Rightarrow> (False, s)
      | Some expiry \<Rightarrow>
          if expiry \<noteq> 0 then
            (if now < expiry then (True, s)
             else (False, s\<lparr>lockouts := (lockouts s)(ip := None)\<rparr>))
          else (False, s))"

definition record_failed :: "config \<Rightarrow> string \<Rightarrow> moment \<Rightarrow> state \<Rightarrow> state" where
  "record_failed cfg ip now s =
     (let lst = (case failed_attempts s ip of None \<Rightarrow> [] | Some l \<Rightarrow> l) @ [now];
          kept = (if int (length lst) > LOCKOUT_THRESHOLD cfg * 2
                  then slice_from (- (LOCKOUT_THRESHOLD cfg * 2)) lst else lst);
          s1 = s\<lparr>failed_attempts := (failed_attempts s)(ip \<mapsto> kept)\<rparr>;
          recent = filter (\<lambda>t. now - t < real_of_int (LOCKOUT_PERIOD cfg)) kept
      in if int (length recent) \<ge> LOCKOUT_THRESHOLD cfg
         then s1\<lparr>lockouts := (lockouts s1)(ip \<mapsto> now + real_of_int (LOCKOUT_PERIOD cfg))\<rparr>
         else s1)"

definition rate_limit_ok :: "config \<Rightarrow> string \<Rightarrow> moment \<Rightarrow> state \<Rightarrow> bool \<times> state" where
  "rate_limit_ok cfg ip now s =
     (let window = (case rate_windows s ip of None \<Rightarrow> [] | Some w \<Rightarrow> w) @ [now];
          window' = filter (\<lambda>t. now - t \<le> real_of_int (RATE_LIMIT_WINDOW cfg)) window
      in (int (length window') \<le> RATE_LIMIT_MAX cfg,
          s\<lparr>rate_windows := (rate_windows s)(ip \<mapsto> window')\<rparr>))"

subsection \<open>\<^verbatim>\<open>check_password\<close>\<close>

text \<open>\<^verbatim>\<open>try: ... except Exception: return False\<close>: the body either returns or raises, and the
  handler turns every exception into \<^verbatim>\<open>False\<close>. The exceptions of the model are instances of
  \<^verbatim>\<open>Exception\<close>.\<close>

definition except_False :: "py_exn + bool \<Rightarrow> bool" where
  "except_False r = (case r of Inl e \<Rightarrow> False | Inr b \<Rightarrow> b)"

text \<open>\<^verbatim>\<open>app.py\<close> tests \<^verbatim>\<open>plain_password is None\<close>; in \<^verbatim>\<open>server.py\<close> a \<^verbatim>\<open>None\<close> password reaches
  \<^verbatim>\<open>plain_password.encode\<close>, which raises \<^verbatim>\<open>AttributeError\<close> inside the \<^verbatim>\<open>try\<close>.\<close>

definition check_password_body_app ::
    "(bytes \<Rightarrow> bytes \<Rightarrow> py_exn + bool) \<Rightarrow> config \<Rightarrow> string option \<Rightarrow> py_exn + bool" where
  "check_password_body_app checkpw cfg plain_password =
     (case ADMIN_PW_HASH cfg of
        None \<Rightarrow> Inr False
      | Some h \<Rightarrow>
          (case plain_password of
             None \<Rightarrow> Inr False
           | Some p \<Rightarrow> checkpw (encode_utf8 p) h))"

definition check_password_app ::
    "(bytes \<Rightarrow> bytes \<Rightarrow> py_exn + bool) \<Rightarrow> config \<Rightarrow> string option \<Rightarrow> bool" where
  "check_password_app checkpw cfg plain_password =
     except_False (check_password_body_app checkpw cfg plain_password)"

definition check_password_body_server ::
    "(bytes \<Rightarrow> bytes \<Rightarrow> py_exn + bool) \<Rightarrow> config \<Rightarrow> string option \<Rightarrow> py_exn + bool" where
  "check_password_body_server checkpw cfg plain_password =
     (case ADMIN_PW_HASH cfg of
        None \<Rightarrow> Inr False
      | Some h \<Rightarrow>
          (case plain_password of
             None \<Rightarrow> Inl AttributeError
           | Some p \<Rightarrow> checkpw (encode_utf8 p) h))"

definition check_password_server ::
    "(bytes \<Rightarrow> bytes \<Rightarrow> py_exn + bool) \<Rightarrow> config \<Rightarrow> string option \<Rightarrow> bool" where
  "check_password_server checkpw cfg plain_password =
     except_False (check_password_body_server checkpw cfg plain_password)"

subsection \<open>The decorator \<^verbatim>\<open>require_basic_auth\<close>\<close>

text \<open>The reset on success: \<^verbatim>\<open>failed_attempts.pop(ip, None)\<close> in \<^verbatim>\<open>app.py\<close>, and
  \<^verbatim>\<open>if ip in failed_attempts: del failed_attempts[ip]\<close> in \<^verbatim>\<open>server.py\<close>.\<close>

definition failed_attempts_pop :: "string \<Rightarrow> state \<Rightarrow> state" where
  "failed_attempts_pop ip s = s\<lparr>failed_attempts := (failed_attempts s)(ip := None)\<rparr>"

definition failed_attempts_del :: "string \<Rightarrow> state \<Rightarrow> state" where
  "failed_attempts_del ip s =
     (if failed_attempts s ip \<noteq> None
      then s\<lparr>failed_attempts := (failed_attempts s)(ip := None)\<rparr> else s)"

definition too_many :: response where
  "too_many = make_response ''Too many requests. Slow down.'' 429"

definition blocked :: response where
  "blocked = make_response ''Temporarily blocked due to repeated failed attempts.'' 403"

definition challenge :: "string \<Rightarrow> response" where
  "challenge b =
     set_header ''WWW-Authenticate'' ''Basic realm=\"Admin Area\"'' (make_response b 401)"

text \<open>\<^verbatim>\<open>app.py\<close>: both arguments of \<^verbatim>\<open>hmac.compare_digest\<close> are encoded to bytes.\<close>

definition require_basic_auth_app ::
    "(bytes \<Rightarrow> bytes \<Rightarrow> py_exn + bool) \<Rightarrow> config \<Rightarrow> 'v \<Rightarrow> request \<Rightarrow> clock \<Rightarrow> state
       \<Rightarrow> ('v result \<times> call list) \<times> state" where
  "require_basic_auth_app checkpw cfg view_func req clk s =
     (let ip = client_ip req;
          (ok, s1) = rate_limit_ok cfg ip (t_rate clk) s
      in if \<not> ok then ((Response too_many, []), s1)
         else
           let (locked, s2) = is_locked ip (t_lock clk) s1
           in if locked then ((Response blocked, []), s2)
              else
                (case authorization req of
                   None \<Rightarrow> ((Response (challenge ''Authentication required''), []), s2)
                 | Some a \<Rightarrow>
                     let username_ok =
                           compare_digest_bytes (encode_utf8 (or_empty (username a)))
                             (encode_utf8 (ADMIN_USER cfg));
                         password_ok = check_password_app checkpw cfg (Some (or_empty (password a)))
                     in if username_ok \<and> password_ok
                        then ((View view_func, [Compare_digest, Check_password]),
                              failed_attempts_pop ip s2)
                        else ((Response (challenge ''Invalid credentials''),
                               [Compare_digest, Check_password]),
                              record_failed cfg ip (t_fail clk) s2)))"

text \<open>\<^verbatim>\<open>server.py\<close>: \<^verbatim>\<open>hmac.compare_digest\<close> receives the two strings as they are; when it
  raises, nothing after it in the decorator runs.\<close>

definition require_basic_auth_server ::
    "(bytes \<Rightarrow> bytes \<Rightarrow> py_exn + bool) \<Rightarrow> config \<Rightarrow> 'v \<Rightarrow> request \<Rightarrow> clock \<Rightarrow> state
       \<Rightarrow> ('v result \<times> call list) \<times> state" where
  "require_basic_auth_server checkpw cfg view_func req clk s =
     (let ip = client_ip req;
          (ok, s1) = rate_limit_ok cfg ip (t_rate clk) s
      in if \<not> ok then ((Response too_many, []), s1)
         else
           let (locked, s2) = is_locked ip (t_lock clk) s1
           in if locked then ((Response blocked, []), s2)
              else
                (case authorization req of
                   None \<Rightarrow> ((Response (challenge ''Authentication required''), []), s2)
                 | Some a \<Rightarrow>
                     (case compare_digest_str (or_empty (username a)) (ADMIN_USER cfg) of
                        Inl e \<Rightarrow> ((Raise e, [Compare_digest]), s2)
                      | Inr username_ok \<Rightarrow>
                          let password_ok =
                                check_password_server checkpw cfg (Some (or_empty (password a)))
                          in if username_ok \<and> password_ok
                             then ((View view_func, [Compare_digest, Check_password]),
                                   failed_attempts_del ip s2)
                             else ((Response (challenge ''Invalid credentials''),
                                    [Compare_digest, Check_password]),
                                   record_failed cfg ip (t_fail clk) s2))))"

subsection \<open>Start-up (the \<^verbatim>\<open>__main__\<close> block, the same in both files)\<close>

datatype startup = SystemExit int | Uncaught py_exn | App_run

text \<open>\<^verbatim>\<open>generate_bcrypt_hash\<close> calls the bcrypt library and is a parameter. With \<^verbatim>\<open>--gen-hash\<close> the
  process prints the hash and exits with status 0 before the configuration is looked at.\<close>

definition main ::
    "(string \<Rightarrow> int \<Rightarrow> py_exn + string) \<Rightarrow> config \<Rightarrow> string option \<Rightarrow> int \<Rightarrow> startup" where
  "main generate_bcrypt_hash cfg gen_hash rounds =
     (if or_empty gen_hash \<noteq> [] then
        (case generate_bcrypt_hash (or_empty gen_hash) rounds of
           Inl e \<Rightarrow> Uncaught e
         | Inr h \<Rightarrow> SystemExit 0)
      else if ADMIN_PW_HASH cfg = None then SystemExit 1
      else App_run)"

subsection \<open>Call sequences\<close>

text \<open>The rate window of an identity: \<^verbatim>\<open>rate_windows.setdefault(ip, [])\<close>.\<close>

definition window_of :: "state \<Rightarrow> string \<Rightarrow> moment list" where
  "window_of s ip = (case rate_windows s ip of None \<Rightarrow> [] | Some w \<Rightarrow> w)"

text \<open>A sequence of calls of \<^verbatim>\<open>rate_limit_ok\<close>, each an identity and the clock reading of the
  call: the decisions it returns, and the state it leaves.\<close>

fun rate_decisions :: "config \<Rightarrow> (string \<times> moment) list \<Rightarrow> state \<Rightarrow> bool list" where
  "rate_decisions cfg [] s = []"
| "rate_decisions cfg (c # cs) s =
     fst (rate_limit_ok cfg (fst c) (snd c) s)
       # rate_decisions cfg cs (snd (rate_limit_ok cfg (fst c) (snd c) s))"

fun rate_state :: "config \<Rightarrow> (string \<times> moment) list \<Rightarrow> state \<Rightarrow> state" where
  "rate_state cfg [] s = s"
| "rate_state cfg (c # cs) s = rate_state cfg cs (snd (rate_limit_ok cfg (fst c) (snd c) s))"

text \<open>The calls of one identity that were admitted at a moment between \<open>lo\<close> and \<open>hi\<close>.\<close>

definition admitted_in ::
    "config \<Rightarrow> string \<Rightarrow> moment \<Rightarrow> moment \<Rightarrow> (string \<times> moment) list \<Rightarrow> state
       \<Rightarrow> ((string \<times> moment) \<times> bool) list" where
  "admitted_in cfg ip lo hi cs s =
     filter (\<lambda>d. fst (fst d) = ip \<and> snd d \<and> lo \<le> snd (fst d) \<and> snd (fst d) \<le> hi)
       (zip cs (rate_decisions cfg cs s))"

text \<open>The moments of the calls of one identity.\<close>

definition calls_of :: "string \<Rightarrow> (string \<times> moment) list \<Rightarrow> moment list" where
  "calls_of ip cs = map snd (filter (\<lambda>c. fst c = ip) cs)"

text \<open>The four operations that write the dictionaries, as the events of a history.\<close>

datatype event =
    Rate_limit_ok string moment
  | Is_locked string moment
  | Record_failed string moment
  | Reset string

fun apply_event :: "config \<Rightarrow> state \<Rightarrow> event \<Rightarrow> state" where
  "apply_event cfg s (Rate_limit_ok ip now) = snd (rate_limit_ok cfg ip now s)"
| "apply_event cfg s (Is_locked ip now) = snd (is_locked ip now s)"
| "apply_event cfg s (Record_failed ip now) = record_failed cfg ip now s"
| "apply_event cfg s (Reset ip) = failed_attempts_pop ip s"

definition run :: "config \<Rightarrow> event list \<Rightarrow> state \<Rightarrow> state" where
  "run cfg evs s = foldl (apply_event cfg) s evs"

text \<open>The moments at which a failure of one identity was recorded.\<close>

fun failure_of :: "string \<Rightarrow> event \<Rightarrow> moment list" where
  "failure_of ip (Record_failed ip' now) = (if ip' = ip then [now] else [])"
| "failure_of ip (Rate_limit_ok ip' now) = []"
| "failure_of ip (Is_locked ip' now) = []"
| "failure_of ip (Reset ip') = []"

definition failures :: "string \<Rightarrow> event list \<Rightarrow> moment list" where
  "failures ip evs = concat (map (failure_of ip) evs)"

text \<open>An expiry \<open>e\<close> of an identity is justified by a history when the history holds a
  recorded failure of the identity at a moment \<open>now\<close> with \<open>e = now + LOCKOUT_PERIOD\<close>, and at
  least \<open>LOCKOUT_THRESHOLD\<close> of the failures recorded for the identity up to and including that
  one lie less than \<open>LOCKOUT_PERIOD\<close> before \<open>now\<close>.\<close>

definition justified :: "config \<Rightarrow> string \<Rightarrow> moment \<Rightarrow> event list \<Rightarrow> bool" where
  "justified cfg ip e evs \<longleftrightarrow>
     (\<exists>pre post now. evs = pre @ Record_failed ip now # post
        \<and> e = now + real_of_int (LOCKOUT_PERIOD cfg)
        \<and> LOCKOUT_THRESHOLD cfg
            \<le> int (length (filter (\<lambda>t. now - t < real_of_int (LOCKOUT_PERIOD cfg))
                  (failures ip (pre @ [Record_failed ip now])))))"

subsection \<open>Sample inputs\<close>

text \<open>The defaults of the configuration, with a password hash set.\<close>

definition sample_config :: config where
  "sample_config =
     \<lparr>ADMIN_USER = ''admin'', ADMIN_PW_HASH_RAW = Some ''hash-of-secret'',
      LOCKOUT_THRESHOLD = 5, LOCKOUT_PERIOD = 300,
      RATE_LIMIT_WINDOW = 60, RATE_LIMIT_MAX = 15\<rparr>"

text \<open>A stand-in for \<^verbatim>\<open>bcrypt.checkpw\<close>: one hash is well formed and matches one password;
  any other hash raises, as a malformed hash does.\<close>

definition sample_checkpw :: "bytes \<Rightarrow> bytes \<Rightarrow> py_exn + bool" where
  "sample_checkpw p h =
     (if h = encode_utf8 ''hash-of-secret'' then Inr (p = encode_utf8 ''secret'')
      else Inl ValueError)"

definition sample_ip :: string where
  "sample_ip = ''203.0.113.7''"

definition at_moment :: "moment \<Rightarrow> clock" where
  "at_moment t = \<lparr>t_rate = t, t_lock = t, t_fail = t\<rparr>"

text \<open>A request with no \<^verbatim>\<open>Authorization\<close> header, one with the right credentials, one with a
  wrong password, and one whose user name is the single character U+00E9.\<close>

definition request_anonymous :: request where
  "request_anonymous =
     \<lparr>x_forwarded_for = None, remote_addr = Some sample_ip, authorization = None\<rparr>"

definition request_admin :: request where
  "request_admin =
     \<lparr>x_forwarded_for = None, remote_addr = Some sample_ip,
      authorization = Some \<lparr>username = Some ''admin'', password = Some ''secret''\<rparr>\<rparr>"

definition request_wrong :: request where
  "request_wrong =
     \<lparr>x_forwarded_for = None, remote_addr = Some sample_ip,
      authorization = Some \<lparr>username = Some ''admin'', password = Some ''guess''\<rparr>\<rparr>"

definition request_latin :: request where
  "request_latin =
     \<lparr>x_forwarded_for = None, remote_addr = Some sample_ip,
      authorization = Some \<lparr>username = Some [CHR 0xE9], password = Some ''secret''\<rparr>\<rparr>"

text \<open>A request with the header \<^verbatim>\<open>Authorization: Bearer <token>\<close>: \<^verbatim>\<open>request.authorization\<close> is an
  object, and its \<^verbatim>\<open>username\<close> and \<^verbatim>\<open>password\<close> are \<^verbatim>\<open>None\<close>. It carries no Basic credentials.\<close>

definition request_bearer :: request where
  "request_bearer =
     \<lparr>x_forwarded_for = None, remote_addr = Some sample_ip,
      authorization = Some \<lparr>username = None, password = None\<rparr>\<rparr>"

text \<open>A sequence of requests served by one of the decorators, each with the moment at which
  it is served: the results, in order.\<close>

fun serve ::
    "(config \<Rightarrow> unit \<Rightarrow> request \<Rightarrow> clock \<Rightarrow> state \<Rightarrow> (unit result \<times> call list) \<times> state)
       \<Rightarrow> config \<Rightarrow> (request \<times> moment) list \<Rightarrow> state \<Rightarrow> unit result list" where
  "serve guard cfg [] s = []"
| "serve guard cfg (r # rs) s =
     fst (fst (guard cfg () (fst r) (at_moment (snd r)) s))
       # serve guard cfg rs (snd (guard cfg () (fst r) (at_moment (snd r)) s))"

text \<open>A state in which the sample identity has failed four times.\<close>

definition state_four_failures :: state where
  "state_four_failures = initial_state\<lparr>failed_attempts := [sample_ip \<mapsto> [1, 2, 3, 4]]\<rparr>"

text \<open>A stand-in for \<^verbatim>\<open>generate_bcrypt_hash\<close>: bcrypt takes between 4 and 31 rounds.\<close>

definition sample_generate_bcrypt_hash :: "string \<Rightarrow> int \<Rightarrow> py_exn + string" where
  "sample_generate_bcrypt_hash pw rounds =
     (if 4 \<le> rounds \<and> rounds \<le> 31 then Inr (''hash-of-'' @ pw) else Inl ValueError)"

text \<open>A state in which the lockout of the sample identity ran out at moment 100.\<close>

definition state_expired :: state where
  "state_expired = initial_state\<lparr>lockouts := [sample_ip \<mapsto> 100]\<rparr>"

section \<open>Properties\<close>

subsection \<open>Facts about the helpers\<close>

lemmas sample_defs = sample_config_def sample_checkpw_def sample_ip_def at_moment_def
  request_anonymous_def request_admin_def request_wrong_def request_latin_def
  request_bearer_def state_expired_def state_four_failures_def initial_state_def

lemmas model_defs = require_basic_auth_app_def require_basic_auth_server_def rate_limit_ok_def
  is_locked_def record_failed_def client_ip_def check_password_app_def check_password_server_def
  check_password_body_app_def check_password_body_server_def except_False_def ADMIN_PW_HASH_def
  compare_digest_bytes_def compare_digest_str_def is_ascii_def or_empty_def encode_utf8_def
  encode_char_def failed_attempts_pop_def failed_attempts_del_def slice_from_def Let_def

lemma slice_from_neg: "0 < n \<Longrightarrow> slice_from (- n) xs = drop (length xs - nat n) xs"
  by (auto simp: slice_from_def Let_def max_def nat_diff_distrib' intro!: arg_cong2[where f=drop])

lemma rate_limit_ok_other [simp]:
  "failed_attempts (snd (rate_limit_ok cfg ip now s)) = failed_attempts s"
  "lockouts (snd (rate_limit_ok cfg ip now s)) = lockouts s"
  by (simp_all add: rate_limit_ok_def Let_def)

lemma is_locked_other [simp]:
  "failed_attempts (snd (is_locked ip now s)) = failed_attempts s"
  "rate_windows (snd (is_locked ip now s)) = rate_windows s"
  by (simp_all add: is_locked_def split: option.splits)

lemma is_locked_after_rate [simp]:
  "fst (is_locked ip now (snd (rate_limit_ok cfg ip' now' s))) = fst (is_locked ip now s)"
  by (simp add: is_locked_def split: option.splits)

text \<open>The only writer of \<^verbatim>\<open>lockouts\<close> stores \<^verbatim>\<open>now + LOCKOUT_PERIOD\<close>, which is not \<^verbatim>\<open>0.0\<close> when the
  clock is positive and the period is not negative: no reachable state holds the expiry that
  \<^verbatim>\<open>if expiry:\<close> takes for an absent one.\<close>

lemma record_failed_expiry_nonzero:
  assumes "0 < now" "0 \<le> LOCKOUT_PERIOD cfg" "lockouts s ip' \<noteq> Some 0"
  shows "lockouts (record_failed cfg ip now s) ip' \<noteq> Some 0"
  using assms by (auto simp: record_failed_def Let_def)

lemma failed_attempts_del_pop: "failed_attempts_del ip s = failed_attempts_pop ip s"
  by (cases "failed_attempts s ip")
    (auto simp: failed_attempts_del_def failed_attempts_pop_def fun_upd_idem)

lemma status_responses:
  "status too_many = 429" "status blocked = 403" "status (challenge b) = 401"
  "headers (challenge b) = [(''WWW-Authenticate'', ''Basic realm=\"Admin Area\"'')]"
  by (simp_all add: too_many_def blocked_def challenge_def make_response_def set_header_def)

lemma is_locked_lockouts:
  "lockouts (snd (is_locked ip now s)) =
     (if (\<exists>e. lockouts s ip = Some e \<and> e \<noteq> 0 \<and> e \<le> now) then (lockouts s)(ip := None)
      else lockouts s)"
  by (auto simp: is_locked_def split: option.splits)

lemma is_locked_decision:
  "fst (is_locked ip now s) \<longleftrightarrow> (\<exists>e. lockouts s ip = Some e \<and> e \<noteq> 0 \<and> now < e)"
  by (auto simp: is_locked_def split: option.splits)

lemma is_locked_True_state: "fst (is_locked ip now s) \<Longrightarrow> snd (is_locked ip now s) = s"
  by (auto simp: is_locked_def split: option.splits if_splits)

lemma record_failed_fresh:
  assumes "1 < LOCKOUT_THRESHOLD cfg" "failed_attempts s ip = None"
  shows "record_failed cfg ip now s = s\<lparr>failed_attempts := (failed_attempts s)(ip \<mapsto> [now])\<rparr>"
  using assms by (simp add: record_failed_def Let_def)

lemma is_locked_False_after:
  "\<not> fst (is_locked ip now s) \<Longrightarrow>
     lockouts (snd (is_locked ip now s)) ip = None \<or> lockouts (snd (is_locked ip now s)) ip = Some 0"
  by (auto simp: is_locked_def split: option.splits if_splits)

lemma is_locked_absent:
  "lockouts s ip = None \<or> lockouts s ip = Some 0 \<Longrightarrow> is_locked ip now s = (False, s)"
  by (auto simp: is_locked_def)

text \<open>The encoding is injective, so the comparison of the encoded user names in \<^verbatim>\<open>app.py\<close>
  is the comparison of the user names.\<close>

lemma encode_char_append_inj:
  assumes "encode_char c @ xs = encode_char d @ ys"
  shows "c = d \<and> xs = ys"
proof -
  let ?n = "of_char c :: nat" and ?m = "of_char d :: nat"
  have "?n = ?m \<and> xs = ys"
  proof (cases "?n < 128")
    case True
    show ?thesis
    proof (cases "?m < 128")
      case True
      with \<open>?n < 128\<close> assms show ?thesis by (simp add: encode_char_def)
    next
      case False
      with \<open>?n < 128\<close> assms show ?thesis by (simp add: encode_char_def Let_def)
    qed
  next
    case False
    show ?thesis
    proof (cases "?m < 128")
      case True
      with \<open>\<not> ?n < 128\<close> assms show ?thesis by (simp add: encode_char_def Let_def)
    next
      case False
      with \<open>\<not> ?n < 128\<close> assms have "?n div 64 = ?m div 64" "?n mod 64 = ?m mod 64" "xs = ys"
        by (simp_all add: encode_char_def Let_def)
      then show ?thesis by (metis div_mult_mod_eq)
    qed
  qed
  then show ?thesis by simp
qed

lemma encode_char_nonempty [simp]: "encode_char c \<noteq> []" "[] \<noteq> encode_char c"
  by (simp_all add: encode_char_def Let_def)

lemma encode_utf8_inj: "encode_utf8 a = encode_utf8 b \<longleftrightarrow> a = b"
proof
  show "encode_utf8 a = encode_utf8 b \<Longrightarrow> a = b"
  proof (induction a arbitrary: b)
    case Nil
    then show ?case
      by (cases b) (simp_all add: encode_utf8_def)
  next
    case (Cons c a)
    show ?case
    proof (cases b)
      case Nil
      with Cons.prems show ?thesis
        by (simp add: encode_utf8_def)
    next
      case (Cons d b')
      with Cons.prems have "encode_char c @ encode_utf8 a = encode_char d @ encode_utf8 b'"
        by (simp add: encode_utf8_def)
      then have "c = d" "encode_utf8 a = encode_utf8 b'"
        using encode_char_append_inj by blast+
      with Cons.IH Cons show ?thesis by simp
    qed
  qed
qed simp

lemma check_password_same:
  "check_password_server checkpw cfg (Some p) = check_password_app checkpw cfg (Some p)"
  by (simp add: check_password_server_def check_password_app_def check_password_body_app_def
      check_password_body_server_def split: option.splits)

subsection \<open>The two decorators as decision tables\<close>

text \<open>The checks in the order of the source, with the state each branch leaves. The two
  tables differ in the comparison of the user name only.\<close>

lemma require_basic_auth_app_table:
  "require_basic_auth_app checkpw cfg view_func req clk s =
     (let ip = client_ip req;
          s1 = snd (rate_limit_ok cfg ip (t_rate clk) s);
          s2 = snd (is_locked ip (t_lock clk) s1)
      in if \<not> fst (rate_limit_ok cfg ip (t_rate clk) s) then ((Response too_many, []), s1)
         else if fst (is_locked ip (t_lock clk) s) then ((Response blocked, []), s1)
         else (case authorization req of
                 None \<Rightarrow> ((Response (challenge ''Authentication required''), []), s2)
               | Some a \<Rightarrow>
                   if encode_utf8 (or_empty (username a)) = encode_utf8 (ADMIN_USER cfg)
                      \<and> check_password_app checkpw cfg (Some (or_empty (password a)))
                   then ((View view_func, [Compare_digest, Check_password]),
                         failed_attempts_pop ip s2)
                   else ((Response (challenge ''Invalid credentials''),
                          [Compare_digest, Check_password]),
                         record_failed cfg ip (t_fail clk) s2)))"
  by (simp add: require_basic_auth_app_def Let_def split_beta compare_digest_bytes_def
      is_locked_True_state split: option.splits)

lemma require_basic_auth_server_table:
  "require_basic_auth_server checkpw cfg view_func req clk s =
     (let ip = client_ip req;
          s1 = snd (rate_limit_ok cfg ip (t_rate clk) s);
          s2 = snd (is_locked ip (t_lock clk) s1)
      in if \<not> fst (rate_limit_ok cfg ip (t_rate clk) s) then ((Response too_many, []), s1)
         else if fst (is_locked ip (t_lock clk) s) then ((Response blocked, []), s1)
         else (case authorization req of
                 None \<Rightarrow> ((Response (challenge ''Authentication required''), []), s2)
               | Some a \<Rightarrow>
                   if \<not> (is_ascii (or_empty (username a)) \<and> is_ascii (ADMIN_USER cfg))
                   then ((Raise TypeError, [Compare_digest]), s2)
                   else if or_empty (username a) = ADMIN_USER cfg
                      \<and> check_password_server checkpw cfg (Some (or_empty (password a)))
                   then ((View view_func, [Compare_digest, Check_password]),
                         failed_attempts_pop ip s2)
                   else ((Response (challenge ''Invalid credentials''),
                          [Compare_digest, Check_password]),
                         record_failed cfg ip (t_fail clk) s2)))"
  by (simp add: require_basic_auth_server_def Let_def split_beta compare_digest_str_def
      is_locked_True_state failed_attempts_del_pop split: option.splits)

lemma responses_distinct:
  "challenge ''Invalid credentials'' \<noteq> too_many"
  "challenge ''Invalid credentials'' \<noteq> blocked"
  "challenge ''Invalid credentials'' \<noteq> challenge ''Authentication required''"
  "too_many \<noteq> blocked"
  "challenge b \<noteq> too_many" "challenge b \<noteq> blocked"
  by (simp_all add: too_many_def blocked_def challenge_def make_response_def set_header_def)

lemma guard_granted_state:
  assumes "guard = require_basic_auth_app \<or> guard = require_basic_auth_server"
    and "fst (fst (guard checkpw cfg view_func req clk s)) = View v"
  shows "\<not> fst (is_locked (client_ip req) (t_lock clk) s)"
    and "snd (guard checkpw cfg view_func req clk s)
           = failed_attempts_pop (client_ip req)
               (snd (is_locked (client_ip req) (t_lock clk)
                  (snd (rate_limit_ok cfg (client_ip req) (t_rate clk) s))))"
  using assms
  by (auto simp: require_basic_auth_app_table require_basic_auth_server_table Let_def
      split: if_splits option.splits)

lemma guard_mismatch_state:
  assumes "guard = require_basic_auth_app \<or> guard = require_basic_auth_server"
    and "fst (fst (guard checkpw cfg view_func req clk s))
           = Response (challenge ''Invalid credentials'')"
  shows "snd (guard checkpw cfg view_func req clk s)
           = record_failed cfg (client_ip req) (t_fail clk)
               (snd (is_locked (client_ip req) (t_lock clk)
                  (snd (rate_limit_ok cfg (client_ip req) (t_rate clk) s))))"
  using assms
  by (auto simp: require_basic_auth_app_table require_basic_auth_server_table Let_def
      responses_distinct responses_distinct [symmetric]
      split: if_splits option.splits)

subsection \<open>C2: \<^verbatim>\<open>record_failed\<close>\<close>

text \<open>For every threshold, \<^verbatim>\<open>record_failed\<close> appends the current moment to the failure sequence
  of the identity, trims the result when it is longer than \<open>2 \<times> threshold\<close>, counts the kept
  entries \<open>t\<close> with \<open>now - t < LOCKOUT_PERIOD\<close> and, when that count reaches the threshold, stores
  \<open>now + LOCKOUT_PERIOD\<close> as the expiry whatever expiry was there before; otherwise the expiry is as
  it was. Nothing of another identity and no rate window changes.\<close>

lemma record_failed_effect:
  "let lst = (case failed_attempts s ip of None \<Rightarrow> [] | Some l \<Rightarrow> l) @ [now];
       kept = (if LOCKOUT_THRESHOLD cfg * 2 < int (length lst)
               then slice_from (- (LOCKOUT_THRESHOLD cfg * 2)) lst else lst);
       recent = filter (\<lambda>t. now - t < real_of_int (LOCKOUT_PERIOD cfg)) kept;
       s' = record_failed cfg ip now s
   in failed_attempts s' ip = Some kept
    \<and> lockouts s' ip =
        (if LOCKOUT_THRESHOLD cfg \<le> int (length recent)
         then Some (now + real_of_int (LOCKOUT_PERIOD cfg)) else lockouts s ip)
    \<and> (\<forall>ip'. ip' \<noteq> ip \<longrightarrow>
          failed_attempts s' ip' = failed_attempts s ip' \<and> lockouts s' ip' = lockouts s ip')
    \<and> rate_windows s' = rate_windows s"
  by (simp add: record_failed_def Let_def)

text \<open>With a threshold of at least 1 the trimming keeps the last \<open>2 \<times> threshold\<close> entries, the
  current moment among them.\<close>

lemma record_failed_bound:
  assumes "0 < LOCKOUT_THRESHOLD cfg"
  shows "let old = (case failed_attempts s ip of None \<Rightarrow> [] | Some l \<Rightarrow> l);
             kept = drop (Suc (length old) - nat (2 * LOCKOUT_THRESHOLD cfg)) (old @ [now])
         in failed_attempts (record_failed cfg ip now s) ip = Some kept
          \<and> last kept = now
          \<and> int (length kept) \<le> 2 * LOCKOUT_THRESHOLD cfg"
  using assms
  by (auto simp: record_failed_def Let_def slice_from_neg mult.commute)

text \<open>With the threshold 0 the trimming branch is taken at every call, and its slice
  \<^verbatim>\<open>lst[-0:]\<close> is the whole list: nothing is ever dropped.\<close>

lemma record_failed_threshold_zero:
  assumes "LOCKOUT_THRESHOLD cfg = 0"
  shows "failed_attempts (record_failed cfg ip now s) ip
       = Some ((case failed_attempts s ip of None \<Rightarrow> [] | Some l \<Rightarrow> l) @ [now])"
  using assms by (simp add: record_failed_def Let_def slice_from_def)

text \<open>
  C2 does not hold at the threshold 0. The fifth failure of the sample identity takes the
  branch under \<^verbatim>\<open># trim history\<close> and leaves all five entries, where the claim says the sequence
  is pruned to at most \<open>2 \<times> threshold = 0\<close> entries.
\<close>

theorem record_failed_threshold_zero_keeps_all:
  "failed_attempts (record_failed (sample_config\<lparr>LOCKOUT_THRESHOLD := 0\<rparr>) sample_ip 7
       state_four_failures) sample_ip = Some [1, 2, 3, 4, 7]
   \<and> \<not> int (length [1, 2, 3, 4, 7 :: real])
         \<le> 2 * LOCKOUT_THRESHOLD (sample_config\<lparr>LOCKOUT_THRESHOLD := 0\<rparr>)"
  by (simp add: record_failed_def slice_from_def Let_def sample_defs)

subsection \<open>C4: \<^verbatim>\<open>is_locked\<close>\<close>

lemma run_snoc: "run cfg (evs @ [x]) s = apply_event cfg (run cfg evs s) x"
  by (simp add: run_def)

lemma failures_snoc: "failures ip (evs @ [x]) = failures ip evs @ failure_of ip x"
  by (simp add: failures_def)

text \<open>With a positive clock and a period that is not negative, no state reached from the empty
  dictionaries holds the expiry \<^verbatim>\<open>0.0\<close>, the one \<^verbatim>\<open>is_locked\<close> takes for an absent expiry.\<close>

lemma run_expiry_nonzero:
  assumes "0 \<le> LOCKOUT_PERIOD cfg" and "\<forall>ip t. Record_failed ip t \<in> set evs \<longrightarrow> 0 < t"
  shows "lockouts (run cfg evs initial_state) ip \<noteq> Some 0"
  using assms(2)
proof (induction evs rule: rev_induct)
  case Nil
  then show ?case by (simp add: run_def initial_state_def)
next
  case (snoc x evs)
  then have IH: "lockouts (run cfg evs initial_state) ip \<noteq> Some 0"
    by simp
  show ?case
  proof (cases x)
    case (Record_failed ip' t)
    with snoc.prems have "0 < t" by simp
    with IH Record_failed assms(1) show ?thesis
      by (simp add: run_snoc record_failed_expiry_nonzero)
  next
    case (Is_locked ip' t)
    with IH show ?thesis
      by (auto simp: run_snoc is_locked_lockouts)
  qed (use IH in \<open>simp_all add: run_snoc failed_attempts_pop_def\<close>)
qed

text \<open>
  C4. When the stored expiry of the identity is not \<^verbatim>\<open>0.0\<close>, as in every state reached with
  a positive clock, \<^verbatim>\<open>is_locked\<close> returns true exactly
  when an expiry is stored and the clock is strictly before it. An expiry that the clock has
  reached is removed and the answer is false. An expired value locks nobody later: it gives
  false at every later reading of the clock, and after a call that answered false every
  further call answers false, whatever the clock says.
\<close>

theorem is_locked_lazy_expiry:
  assumes "lockouts s ip \<noteq> Some 0"
  shows "(fst (is_locked ip now s) \<longleftrightarrow> (\<exists>e. lockouts s ip = Some e \<and> now < e))
       \<and> (\<forall>e. lockouts s ip = Some e \<and> e \<le> now \<longrightarrow>
             is_locked ip now s = (False, s\<lparr>lockouts := (lockouts s)(ip := None)\<rparr>))
       \<and> (\<forall>e now'. lockouts s ip = Some e \<and> e \<le> now \<and> now \<le> now' \<longrightarrow>
             \<not> fst (is_locked ip now' s))
       \<and> (\<not> fst (is_locked ip now s) \<longrightarrow>
             (\<forall>now'. \<not> fst (is_locked ip now' (snd (is_locked ip now s)))))"
  using assms by (auto simp: is_locked_def split: option.splits)

theorem is_locked_lazy_expiry_witness:
  "lockouts state_expired sample_ip \<noteq> Some 0
   \<and> fst (is_locked sample_ip 99 state_expired)
   \<and> is_locked sample_ip 100 state_expired =
       (False, state_expired\<lparr>lockouts := (lockouts state_expired)(sample_ip := None)\<rparr>)
   \<and> \<not> fst (is_locked sample_ip 50 (snd (is_locked sample_ip 100 state_expired)))"
proof -
  have h: "lockouts state_expired sample_ip \<noteq> Some 0"
    by (simp add: state_expired_def)
  have e: "lockouts state_expired sample_ip = Some 100"
    by (simp add: state_expired_def)
  show ?thesis
    using h e is_locked_lazy_expiry [OF h, of 99] is_locked_lazy_expiry [OF h, of 100]
    by auto
qed

subsection \<open>C7: \<^verbatim>\<open>check_password\<close> and the missing hash\<close>

text \<open>
  C7. When the hash routine raises on the candidate password, the body of \<^verbatim>\<open>check_password\<close>
  raises and \<^verbatim>\<open>check_password\<close> returns false, in both files. With no hash configured,
  \<^verbatim>\<open>check_password\<close> is false for every input, and the start-up never reaches \<^verbatim>\<open>app.run\<close>:
  without \<^verbatim>\<open>--gen-hash\<close> it exits with status 1. No exception of the hash routine leaves
  the decorator: the decorator of \<^verbatim>\<open>app.py\<close> raises nothing, and the one of \<^verbatim>\<open>server.py\<close> raises
  only what the comparison of the user name raises.
\<close>

theorem check_password_never_raises:
  "(\<forall>h e. ADMIN_PW_HASH cfg = Some h \<and> checkpw (encode_utf8 p) h = Inl e \<longrightarrow>
       check_password_body_app checkpw cfg (Some p) = Inl e
       \<and> check_password_body_server checkpw cfg (Some p) = Inl e
       \<and> \<not> check_password_app checkpw cfg (Some p)
       \<and> \<not> check_password_server checkpw cfg (Some p))
   \<and> (ADMIN_PW_HASH cfg = None \<longrightarrow>
       (\<forall>q. \<not> check_password_app checkpw cfg q \<and> \<not> check_password_server checkpw cfg q)
       \<and> main generate_bcrypt_hash cfg gen_hash rounds \<noteq> App_run
       \<and> (or_empty gen_hash = [] \<longrightarrow>
            main generate_bcrypt_hash cfg gen_hash rounds = SystemExit 1))
   \<and> (\<forall>e. fst (fst (require_basic_auth_app checkpw cfg view_func req clk s)) \<noteq> Raise e)
   \<and> (\<forall>e. fst (fst (require_basic_auth_server checkpw cfg view_func req clk s)) = Raise e \<longrightarrow>
         (\<exists>a. authorization req = Some a
            \<and> compare_digest_str (or_empty (username a)) (ADMIN_USER cfg) = Inl e))"
  by (auto simp: check_password_app_def check_password_server_def check_password_body_app_def
      check_password_body_server_def except_False_def main_def require_basic_auth_app_def
      require_basic_auth_server_def Let_def
      split: option.splits sum.splits prod.splits if_splits)

theorem check_password_never_raises_witness:
  "ADMIN_PW_HASH (sample_config\<lparr>ADMIN_PW_HASH_RAW := Some ''malformed''\<rparr>)
      = Some (encode_utf8 ''malformed'')
   \<and> sample_checkpw (encode_utf8 ''secret'') (encode_utf8 ''malformed'') = Inl ValueError
   \<and> check_password_body_app sample_checkpw
        (sample_config\<lparr>ADMIN_PW_HASH_RAW := Some ''malformed''\<rparr>) (Some ''secret'') = Inl ValueError
   \<and> \<not> check_password_app sample_checkpw
        (sample_config\<lparr>ADMIN_PW_HASH_RAW := Some ''malformed''\<rparr>) (Some ''secret'')
   \<and> \<not> check_password_server sample_checkpw
        (sample_config\<lparr>ADMIN_PW_HASH_RAW := Some ''malformed''\<rparr>) (Some ''secret'')
   \<and> ADMIN_PW_HASH (sample_config\<lparr>ADMIN_PW_HASH_RAW := None\<rparr>) = None
   \<and> \<not> check_password_app sample_checkpw (sample_config\<lparr>ADMIN_PW_HASH_RAW := None\<rparr>) (Some ''secret'')
   \<and> or_empty None = []
   \<and> main sample_generate_bcrypt_hash (sample_config\<lparr>ADMIN_PW_HASH_RAW := None\<rparr>) None 12
       = SystemExit 1
   \<and> fst (fst (require_basic_auth_server sample_checkpw sample_config () request_latin
         (at_moment 0) initial_state)) = Raise TypeError
   \<and> (\<exists>a. authorization request_latin = Some a
         \<and> compare_digest_str (or_empty (username a)) (ADMIN_USER sample_config) = Inl TypeError)"
proof -
  have h1: "ADMIN_PW_HASH (sample_config\<lparr>ADMIN_PW_HASH_RAW := Some ''malformed''\<rparr>)
      = Some (encode_utf8 ''malformed'')"
    by (simp add: ADMIN_PW_HASH_def sample_config_def)
  have h2: "sample_checkpw (encode_utf8 ''secret'') (encode_utf8 ''malformed'') = Inl ValueError"
    by (simp add: sample_checkpw_def encode_utf8_def encode_char_def)
  have h3: "ADMIN_PW_HASH (sample_config\<lparr>ADMIN_PW_HASH_RAW := None\<rparr>) = None"
    by (simp add: ADMIN_PW_HASH_def sample_config_def)
  have h4: "or_empty None = []"
    by (simp add: or_empty_def)
  have h5: "fst (fst (require_basic_auth_server sample_checkpw sample_config () request_latin
         (at_moment 0) initial_state)) = Raise TypeError"
    by (simp add: require_basic_auth_server_def rate_limit_ok_def is_locked_def Let_def
        initial_state_def sample_config_def at_moment_def request_latin_def client_ip_def
        sample_ip_def compare_digest_str_def is_ascii_def or_empty_def)
  note a = check_password_never_raises
      [where cfg = "sample_config\<lparr>ADMIN_PW_HASH_RAW := Some ''malformed''\<rparr>"
        and checkpw = sample_checkpw and p = "''secret''"
        and generate_bcrypt_hash = sample_generate_bcrypt_hash and gen_hash = None
        and rounds = 12 and view_func = "()" and req = request_latin
        and clk = "at_moment 0" and s = initial_state, THEN conjunct1, rule_format, OF conjI [OF h1 h2]]
  note b = check_password_never_raises
      [where cfg = "sample_config\<lparr>ADMIN_PW_HASH_RAW := None\<rparr>"
        and checkpw = sample_checkpw and p = "''secret''"
        and generate_bcrypt_hash = sample_generate_bcrypt_hash and gen_hash = None
        and rounds = 12 and view_func = "()" and req = request_latin
        and clk = "at_moment 0" and s = initial_state, THEN conjunct2, THEN conjunct1,
        rule_format, OF h3]
  note c = check_password_never_raises
      [where cfg = sample_config
        and checkpw = sample_checkpw and p = "''secret''"
        and generate_bcrypt_hash = sample_generate_bcrypt_hash and gen_hash = None
        and rounds = 12 and view_func = "()" and req = request_latin
        and clk = "at_moment 0" and s = initial_state, THEN conjunct2, THEN conjunct2,
        THEN conjunct2, rule_format, OF h5]
  show ?thesis
    using h1 h2 h3 h4 h5 a b c by simp
qed

subsection \<open>C8: a request without credentials\<close>

text \<open>
  C8 as stated fails. A request with a \<^verbatim>\<open>Bearer\<close> header carries no Basic credentials, yet
  \<^verbatim>\<open>request.authorization\<close> is an object and \<^verbatim>\<open>if not auth\<close> does not fire: both decorators compare the
  empty user name and the empty password, answer with the 401 response for invalid credentials
  and record a failure for the identity.
\<close>

theorem bearer_request_records_failure:
  "authorization request_bearer = Some \<lparr>username = None, password = None\<rparr>
   \<and> fst (rate_limit_ok sample_config (client_ip request_bearer) 1000 initial_state)
   \<and> \<not> fst (is_locked (client_ip request_bearer) 1000 initial_state)
   \<and> failed_attempts initial_state (client_ip request_bearer) = None
   \<and> fst (fst (require_basic_auth_app sample_checkpw sample_config () request_bearer
         (at_moment 1000) initial_state)) = Response (challenge ''Invalid credentials'')
   \<and> failed_attempts (snd (require_basic_auth_app sample_checkpw sample_config () request_bearer
         (at_moment 1000) initial_state)) (client_ip request_bearer) = Some [1000]
   \<and> fst (fst (require_basic_auth_server sample_checkpw sample_config () request_bearer
         (at_moment 1000) initial_state)) = Response (challenge ''Invalid credentials'')
   \<and> failed_attempts (snd (require_basic_auth_server sample_checkpw sample_config () request_bearer
         (at_moment 1000) initial_state)) (client_ip request_bearer) = Some [1000]"
  by (simp add: model_defs sample_defs)

text \<open>
  C8, amended. A request for which \<^verbatim>\<open>request.authorization\<close> is absent (no \<^verbatim>\<open>Authorization\<close> data at
  all) and that is neither rate limited nor locked gets the 401 response with the header
  \<^verbatim>\<open>WWW-Authenticate: Basic realm="Admin Area"\<close>, in both files. No failure is recorded: the failure
  sequences are what they were. The lockout state is what it was: no expiry is set or changed,
  an expiry the clock has not reached stays, and the lock decision for every identity at that
  reading of the clock or a later one is the same before and after; the only change to the
  dictionary is that an expiry of the identity which the clock has reached is deleted.
\<close>

theorem no_authorization_challenge:
  assumes "authorization req = None"
    and "fst (rate_limit_ok cfg (client_ip req) (t_rate clk) s)"
    and "\<not> fst (is_locked (client_ip req) (t_lock clk) s)"
    and "guard = require_basic_auth_app \<or> guard = require_basic_auth_server"
  shows "fst (guard checkpw cfg view_func req clk s)
           = (Response (challenge ''Authentication required''), [])
       \<and> status (challenge ''Authentication required'') = 401
       \<and> headers (challenge ''Authentication required'')
           = [(''WWW-Authenticate'', ''Basic realm=\"Admin Area\"'')]
       \<and> failed_attempts (snd (guard checkpw cfg view_func req clk s)) = failed_attempts s
       \<and> lockouts (snd (guard checkpw cfg view_func req clk s)) =
           (if (\<exists>e. lockouts s (client_ip req) = Some e \<and> e \<noteq> 0 \<and> e \<le> t_lock clk)
            then (lockouts s)(client_ip req := None) else lockouts s)
       \<and> (\<forall>ip e. lockouts (snd (guard checkpw cfg view_func req clk s)) ip = Some e
             \<longrightarrow> lockouts s ip = Some e)
       \<and> (\<forall>ip e. lockouts s ip = Some e \<and> t_lock clk < e
             \<longrightarrow> lockouts (snd (guard checkpw cfg view_func req clk s)) ip = Some e)
       \<and> (\<forall>ip now. t_lock clk \<le> now
             \<longrightarrow> fst (is_locked ip now (snd (guard checkpw cfg view_func req clk s)))
                 = fst (is_locked ip now s))"
proof -
  let ?g = "guard checkpw cfg view_func req clk s"
  have r: "?g = ((Response (challenge ''Authentication required''), []),
        snd (is_locked (client_ip req) (t_lock clk)
          (snd (rate_limit_ok cfg (client_ip req) (t_rate clk) s))))"
    using assms
    by (auto simp: require_basic_auth_app_table require_basic_auth_server_table Let_def)
  have lo: "lockouts (snd ?g) =
           (if (\<exists>e. lockouts s (client_ip req) = Some e \<and> e \<noteq> 0 \<and> e \<le> t_lock clk)
            then (lockouts s)(client_ip req := None) else lockouts s)"
    by (auto simp: r is_locked_lockouts)
  have fa: "failed_attempts (snd ?g) = failed_attempts s"
    by (simp add: r)
  have a: "lockouts s ip = Some e" if "lockouts (snd ?g) ip = Some e" for ip e
  proof (cases "\<exists>e. lockouts s (client_ip req) = Some e \<and> e \<noteq> 0 \<and> e \<le> t_lock clk")
    case True
    with lo have "lockouts (snd ?g) = (lockouts s)(client_ip req := None)" by simp
    with that show ?thesis by (cases "ip = client_ip req") simp_all
  next
    case False
    with lo that show ?thesis by simp
  qed
  have b: "lockouts (snd ?g) ip = Some e" if "lockouts s ip = Some e \<and> t_lock clk < e" for ip e
  proof (cases "\<exists>e. lockouts s (client_ip req) = Some e \<and> e \<noteq> 0 \<and> e \<le> t_lock clk")
    case True
    with lo have l: "lockouts (snd ?g) = (lockouts s)(client_ip req := None)" by simp
    from True that have "ip \<noteq> client_ip req" by auto
    with l that show ?thesis by simp
  next
    case False
    with lo that show ?thesis by simp
  qed
  have c: "fst (is_locked ip now (snd ?g)) = fst (is_locked ip now s)"
    if "t_lock clk \<le> now" for ip now
  proof (cases "\<exists>e. lockouts s (client_ip req) = Some e \<and> e \<noteq> 0 \<and> e \<le> t_lock clk")
    case True
    with lo have l: "lockouts (snd ?g) = (lockouts s)(client_ip req := None)" by simp
    show ?thesis
    proof (cases "ip = client_ip req")
      case False
      with l show ?thesis by (simp add: is_locked_decision)
    next
      case ip: True
      from True that have "\<not> fst (is_locked (client_ip req) now s)"
        by (auto simp: is_locked_decision)
      moreover have "\<not> fst (is_locked (client_ip req) now (snd ?g))"
        by (simp add: is_locked_decision l)
      ultimately show ?thesis using ip by simp
    qed
  next
    case False
    with lo show ?thesis by (simp add: is_locked_decision)
  qed
  from r have r1: "fst ?g = (Response (challenge ''Authentication required''), [])"
    by simp
  show ?thesis
    using r1 fa lo a b c status_responses(3) [of "''Authentication required''"]
      status_responses(4) [of "''Authentication required''"]
    by blast
qed


theorem no_authorization_challenge_witness:
  "authorization request_anonymous = None
   \<and> fst (rate_limit_ok sample_config (client_ip request_anonymous) (t_rate (at_moment 200)) state_expired)
   \<and> \<not> fst (is_locked (client_ip request_anonymous) (t_lock (at_moment 200)) state_expired)
   \<and> fst (require_basic_auth_server sample_checkpw sample_config () request_anonymous
         (at_moment 200) state_expired)
       = (Response (challenge ''Authentication required''), [])
   \<and> fst (require_basic_auth_app sample_checkpw sample_config () request_anonymous
         (at_moment 200) state_expired)
       = (Response (challenge ''Authentication required''), [])
   \<and> failed_attempts (snd (require_basic_auth_server sample_checkpw sample_config () request_anonymous
         (at_moment 200) state_expired)) = failed_attempts state_expired
   \<and> failed_attempts (snd (require_basic_auth_app sample_checkpw sample_config () request_anonymous
         (at_moment 200) state_expired)) = failed_attempts state_expired
   \<and> fst (is_locked sample_ip 250 (snd (require_basic_auth_server sample_checkpw sample_config ()
         request_anonymous (at_moment 200) state_expired)))
       = fst (is_locked sample_ip 250 state_expired)"
proof -
  have h1: "authorization request_anonymous = None"
    by (simp add: request_anonymous_def)
  have h2: "fst (rate_limit_ok sample_config (client_ip request_anonymous) (t_rate (at_moment 200))
      state_expired)"
    by (simp add: rate_limit_ok_def Let_def state_expired_def initial_state_def
        sample_config_def at_moment_def)
  have h3: "\<not> fst (is_locked (client_ip request_anonymous) (t_lock (at_moment 200)) state_expired)"
    by (simp add: is_locked_def state_expired_def initial_state_def at_moment_def
        request_anonymous_def client_ip_def sample_ip_def)
  have h4: "t_lock (at_moment 200) \<le> 250"
    by (simp add: at_moment_def)
  note srv = no_authorization_challenge [OF h1 h2 h3 disjI2 [OF refl], of sample_checkpw "()"]
  note app = no_authorization_challenge [OF h1 h2 h3 disjI1 [OF refl], of sample_checkpw "()"]
  note s1 = srv [THEN conjunct1]
  note s4 = srv [THEN conjunct2, THEN conjunct2, THEN conjunct2, THEN conjunct1]
  note s8 = srv [THEN conjunct2, THEN conjunct2, THEN conjunct2, THEN conjunct2, THEN conjunct2,
      THEN conjunct2, THEN conjunct2, rule_format, OF h4, of sample_ip]
  note a1 = app [THEN conjunct1]
  note a4 = app [THEN conjunct2, THEN conjunct2, THEN conjunct2, THEN conjunct1]
  show ?thesis
    using h1 h2 h3 s1 s4 s8 a1 a4 by blast
qed

subsection \<open>C5: the reset after a successful verification\<close>

text \<open>What each decorator does with credentials that pass both comparisons, and with
  credentials that do not, in terms of the request.\<close>

lemma guard_grants:
  assumes "fst (rate_limit_ok cfg (client_ip req) (t_rate clk) s)"
    and "\<not> fst (is_locked (client_ip req) (t_lock clk) s)"
    and "authorization req = Some a"
    and "guard = require_basic_auth_app
           \<and> compare_digest_bytes (encode_utf8 (or_empty (username a)))
                (encode_utf8 (ADMIN_USER cfg))
           \<and> check_password_app checkpw cfg (Some (or_empty (password a)))
         \<or> guard = require_basic_auth_server
           \<and> compare_digest_str (or_empty (username a)) (ADMIN_USER cfg) = Inr True
           \<and> check_password_server checkpw cfg (Some (or_empty (password a)))"
  shows "guard checkpw cfg view_func req clk s =
           ((View view_func, [Compare_digest, Check_password]),
            failed_attempts_pop (client_ip req)
              (snd (is_locked (client_ip req) (t_lock clk)
                 (snd (rate_limit_ok cfg (client_ip req) (t_rate clk) s)))))"
  using assms(4)
proof
  assume "guard = require_basic_auth_app
           \<and> compare_digest_bytes (encode_utf8 (or_empty (username a)))
                (encode_utf8 (ADMIN_USER cfg))
           \<and> check_password_app checkpw cfg (Some (or_empty (password a)))"
  with assms(1-3) show ?thesis
    by (simp add: require_basic_auth_app_table Let_def compare_digest_bytes_def)
next
  assume "guard = require_basic_auth_server
           \<and> compare_digest_str (or_empty (username a)) (ADMIN_USER cfg) = Inr True
           \<and> check_password_server checkpw cfg (Some (or_empty (password a)))"
  with assms(1-3) show ?thesis
    by (simp add: require_basic_auth_server_table Let_def compare_digest_str_def
        split: if_splits)
qed

lemma guard_rejects:
  assumes "fst (rate_limit_ok cfg (client_ip req) (t_rate clk) s)"
    and "\<not> fst (is_locked (client_ip req) (t_lock clk) s)"
    and "authorization req = Some a"
    and "guard = require_basic_auth_app
           \<and> \<not> (compare_digest_bytes (encode_utf8 (or_empty (username a)))
                   (encode_utf8 (ADMIN_USER cfg))
                \<and> check_password_app checkpw cfg (Some (or_empty (password a))))
         \<or> guard = require_basic_auth_server
           \<and> (\<exists>b. compare_digest_str (or_empty (username a)) (ADMIN_USER cfg) = Inr b
                \<and> \<not> (b \<and> check_password_server checkpw cfg (Some (or_empty (password a)))))"
  shows "guard checkpw cfg view_func req clk s =
           ((Response (challenge ''Invalid credentials''), [Compare_digest, Check_password]),
            record_failed cfg (client_ip req) (t_fail clk)
              (snd (is_locked (client_ip req) (t_lock clk)
                 (snd (rate_limit_ok cfg (client_ip req) (t_rate clk) s)))))"
  using assms(4)
proof
  assume "guard = require_basic_auth_app
           \<and> \<not> (compare_digest_bytes (encode_utf8 (or_empty (username a)))
                   (encode_utf8 (ADMIN_USER cfg))
                \<and> check_password_app checkpw cfg (Some (or_empty (password a))))"
  with assms(1-3) show ?thesis
    by (auto simp: require_basic_auth_app_table Let_def compare_digest_bytes_def)
next
  assume "guard = require_basic_auth_server
           \<and> (\<exists>b. compare_digest_str (or_empty (username a)) (ADMIN_USER cfg) = Inr b
                \<and> \<not> (b \<and> check_password_server checkpw cfg (Some (or_empty (password a)))))"
  with assms(1-3) show ?thesis
    by (auto simp: require_basic_auth_server_table Let_def compare_digest_str_def
        split: if_splits)
qed


text \<open>
  C5. A request that is admitted by the rate limiter, not locked, and whose credentials pass
  both comparisons is granted, in either file, and the state it leaves is the state after the
  rate limiter and the lockout check with the failure sequence of the identity removed, and
  nothing else: the expiries are those the lockout check left, the rate windows those the rate
  limiter left. With a threshold above 1, a request of the same identity that comes next, is
  admitted and fails a comparison is answered 401, leaves the failure sequence with that one
  failure, leaves the expiry of the identity as it was, and the identity is not locked at any
  reading of the clock.
\<close>

theorem success_resets_failures_only:
  assumes "fst (rate_limit_ok cfg (client_ip req) (t_rate clk) s)"
    and "\<not> fst (is_locked (client_ip req) (t_lock clk) s)"
    and "authorization req = Some a"
    and "guard = require_basic_auth_app
           \<and> compare_digest_bytes (encode_utf8 (or_empty (username a)))
                (encode_utf8 (ADMIN_USER cfg))
           \<and> check_password_app checkpw cfg (Some (or_empty (password a)))
         \<or> guard = require_basic_auth_server
           \<and> compare_digest_str (or_empty (username a)) (ADMIN_USER cfg) = Inr True
           \<and> check_password_server checkpw cfg (Some (or_empty (password a)))"
  shows "fst (guard checkpw cfg view_func req clk s)
           = (View view_func, [Compare_digest, Check_password])
       \<and> snd (guard checkpw cfg view_func req clk s)
           = failed_attempts_pop (client_ip req)
               (snd (is_locked (client_ip req) (t_lock clk)
                  (snd (rate_limit_ok cfg (client_ip req) (t_rate clk) s))))
       \<and> failed_attempts (snd (guard checkpw cfg view_func req clk s))
           = (failed_attempts s)(client_ip req := None)
       \<and> lockouts (snd (guard checkpw cfg view_func req clk s))
           = lockouts (snd (is_locked (client_ip req) (t_lock clk) s))
       \<and> rate_windows (snd (guard checkpw cfg view_func req clk s))
           = rate_windows (snd (rate_limit_ok cfg (client_ip req) (t_rate clk) s))
       \<and> (1 < LOCKOUT_THRESHOLD cfg \<and> client_ip req' = client_ip req
            \<and> fst (rate_limit_ok cfg (client_ip req') (t_rate clk')
                 (snd (guard checkpw cfg view_func req clk s)))
            \<and> authorization req' = Some a'
            \<and> (guard = require_basic_auth_app
                 \<and> \<not> (compare_digest_bytes (encode_utf8 (or_empty (username a')))
                         (encode_utf8 (ADMIN_USER cfg))
                      \<and> check_password_app checkpw' cfg (Some (or_empty (password a'))))
               \<or> guard = require_basic_auth_server
                 \<and> (\<exists>b. compare_digest_str (or_empty (username a')) (ADMIN_USER cfg) = Inr b
                      \<and> \<not> (b \<and> check_password_server checkpw' cfg
                                  (Some (or_empty (password a'))))))
          \<longrightarrow> fst (guard checkpw' cfg view_func req' clk'
                 (snd (guard checkpw cfg view_func req clk s)))
                = (Response (challenge ''Invalid credentials''), [Compare_digest, Check_password])
              \<and> failed_attempts (snd (guard checkpw' cfg view_func req' clk'
                 (snd (guard checkpw cfg view_func req clk s)))) (client_ip req)
                = Some [t_fail clk']
              \<and> lockouts (snd (guard checkpw' cfg view_func req' clk'
                 (snd (guard checkpw cfg view_func req clk s)))) (client_ip req)
                = lockouts (snd (guard checkpw cfg view_func req clk s)) (client_ip req)
              \<and> (\<forall>now. \<not> fst (is_locked (client_ip req) now
                   (snd (guard checkpw' cfg view_func req' clk'
                     (snd (guard checkpw cfg view_func req clk s)))))))"
proof -
  let ?ip = "client_ip req"
  let ?s1 = "snd (rate_limit_ok cfg ?ip (t_rate clk) s)"
  let ?s2 = "snd (is_locked ?ip (t_lock clk) ?s1)"
  let ?g = "guard checkpw cfg view_func req clk s"
  let ?s' = "snd ?g"
  have g: "?g = ((View view_func, [Compare_digest, Check_password]), failed_attempts_pop ?ip ?s2)"
    by (rule guard_grants [OF assms])
  then have r: "fst ?g = (View view_func, [Compare_digest, Check_password])"
    and s': "?s' = failed_attempts_pop ?ip ?s2"
    by simp_all
  have fa: "failed_attempts ?s' = (failed_attempts s)(?ip := None)"
    by (simp add: s' failed_attempts_pop_def)
  have lo: "lockouts ?s' = lockouts (snd (is_locked ?ip (t_lock clk) s))"
    by (auto simp: s' failed_attempts_pop_def is_locked_lockouts)
  have rw: "rate_windows ?s' = rate_windows ?s1"
    by (simp add: s' failed_attempts_pop_def)
  have absent: "lockouts ?s' ?ip = None \<or> lockouts ?s' ?ip = Some 0"
    using is_locked_False_after [OF assms(2)] by (simp add: lo)
  have later: "fst t = (Response (challenge ''Invalid credentials''), [Compare_digest, Check_password])
       \<and> failed_attempts (snd t) ?ip = Some [t_fail clk']
       \<and> lockouts (snd t) ?ip = lockouts ?s' ?ip
       \<and> (\<forall>now. \<not> fst (is_locked ?ip now (snd t)))"
    if th: "1 < LOCKOUT_THRESHOLD cfg" and ip: "client_ip req' = ?ip"
      and adm: "fst (rate_limit_ok cfg (client_ip req') (t_rate clk') ?s')"
      and au: "authorization req' = Some a'"
      and bad: "guard = require_basic_auth_app
                 \<and> \<not> (compare_digest_bytes (encode_utf8 (or_empty (username a')))
                         (encode_utf8 (ADMIN_USER cfg))
                      \<and> check_password_app checkpw' cfg (Some (or_empty (password a'))))
               \<or> guard = require_basic_auth_server
                 \<and> (\<exists>b. compare_digest_str (or_empty (username a')) (ADMIN_USER cfg) = Inr b
                      \<and> \<not> (b \<and> check_password_server checkpw' cfg
                                  (Some (or_empty (password a')))))"
      and t: "t = guard checkpw' cfg view_func req' clk' ?s'"
    for checkpw' req' clk' a' t
  proof -
    let ?u1 = "snd (rate_limit_ok cfg ?ip (t_rate clk') ?s')"
    have nl': "\<not> fst (is_locked (client_ip req') (t_lock clk') ?s')"
      using absent is_locked_absent [of ?s' ?ip "t_lock clk'"] by (simp add: ip)
    have u2: "is_locked ?ip (t_lock clk') ?u1 = (False, ?u1)"
      using absent by (intro is_locked_absent) simp
    have none: "failed_attempts ?u1 ?ip = None"
      by (simp add: fa)
    have "t = ((Response (challenge ''Invalid credentials''), [Compare_digest, Check_password]),
        record_failed cfg ?ip (t_fail clk') ?u1)"
      using guard_rejects [OF adm nl' au bad, of view_func] t ip u2 by simp
    then have t1: "fst t = (Response (challenge ''Invalid credentials''),
          [Compare_digest, Check_password])"
      and t2: "snd t = ?u1\<lparr>failed_attempts := (failed_attempts ?u1)(?ip \<mapsto> [t_fail clk'])\<rparr>"
      using record_failed_fresh [OF th none] by simp_all
    have "lockouts (snd t) ?ip = lockouts ?s' ?ip"
      by (simp add: t2)
    moreover have "failed_attempts (snd t) ?ip = Some [t_fail clk']"
      by (simp add: t2)
    moreover have "\<not> fst (is_locked ?ip now (snd t))" for now
      using absent is_locked_absent [of "snd t" ?ip now] by (simp add: t2)
    ultimately show ?thesis using t1 by blast
  qed
  show ?thesis
    using r s' fa lo rw later by blast
qed

theorem success_resets_failures_only_witness:
  "fst (rate_limit_ok sample_config (client_ip request_admin) (t_rate (at_moment 10))
       state_four_failures)
   \<and> \<not> fst (is_locked (client_ip request_admin) (t_lock (at_moment 10)) state_four_failures)
   \<and> compare_digest_str (or_empty (Some ''admin'')) (ADMIN_USER sample_config) = Inr True
   \<and> check_password_server sample_checkpw sample_config (Some (or_empty (Some ''secret'')))
   \<and> compare_digest_bytes (encode_utf8 (or_empty (Some ''admin'')))
        (encode_utf8 (ADMIN_USER sample_config))
   \<and> check_password_app sample_checkpw sample_config (Some (or_empty (Some ''secret'')))
   \<and> failed_attempts state_four_failures (client_ip request_admin) = Some [1, 2, 3, 4]
   \<and> fst (require_basic_auth_server sample_checkpw sample_config () request_admin
         (at_moment 10) state_four_failures) = (View (), [Compare_digest, Check_password])
   \<and> failed_attempts (snd (require_basic_auth_server sample_checkpw sample_config () request_admin
         (at_moment 10) state_four_failures)) (client_ip request_admin) = None
   \<and> fst (require_basic_auth_app sample_checkpw sample_config () request_admin
         (at_moment 10) state_four_failures) = (View (), [Compare_digest, Check_password])
   \<and> failed_attempts (snd (require_basic_auth_app sample_checkpw sample_config () request_admin
         (at_moment 10) state_four_failures)) (client_ip request_admin) = None
   \<and> 1 < LOCKOUT_THRESHOLD sample_config
   \<and> fst (require_basic_auth_server sample_checkpw sample_config () request_wrong (at_moment 11)
        (snd (require_basic_auth_server sample_checkpw sample_config () request_admin
           (at_moment 10) state_four_failures)))
       = (Response (challenge ''Invalid credentials''), [Compare_digest, Check_password])
   \<and> failed_attempts (snd (require_basic_auth_server sample_checkpw sample_config () request_wrong
        (at_moment 11)
        (snd (require_basic_auth_server sample_checkpw sample_config () request_admin
           (at_moment 10) state_four_failures)))) (client_ip request_admin) = Some [11]
   \<and> \<not> fst (is_locked (client_ip request_admin) 12
        (snd (require_basic_auth_server sample_checkpw sample_config () request_wrong
        (at_moment 11)
        (snd (require_basic_auth_server sample_checkpw sample_config () request_admin
           (at_moment 10) state_four_failures)))))"
proof -
  let ?a = "\<lparr>username = Some ''admin'', password = Some ''secret''\<rparr>"
  let ?w = "\<lparr>username = Some ''admin'', password = Some ''guess''\<rparr>"
  have h1: "fst (rate_limit_ok sample_config (client_ip request_admin) (t_rate (at_moment 10))
       state_four_failures)"
    by (simp add: rate_limit_ok_def Let_def sample_defs)
  have h2: "\<not> fst (is_locked (client_ip request_admin) (t_lock (at_moment 10)) state_four_failures)"
    by (simp add: is_locked_def sample_defs)
  have h3: "authorization request_admin = Some ?a"
    by (simp add: request_admin_def)
  have u: "compare_digest_str (or_empty (username ?a)) (ADMIN_USER sample_config) = Inr True"
    by (simp add: compare_digest_str_def is_ascii_def or_empty_def sample_config_def)
  have p: "check_password_server sample_checkpw sample_config (Some (or_empty (password ?a)))"
    by (simp add: model_defs sample_defs)
  have ub: "compare_digest_bytes (encode_utf8 (or_empty (username ?a)))
        (encode_utf8 (ADMIN_USER sample_config))"
    by (simp add: compare_digest_bytes_def or_empty_def sample_config_def)
  have pa: "check_password_app sample_checkpw sample_config (Some (or_empty (password ?a)))"
    by (simp add: model_defs sample_defs)
  have fa0: "failed_attempts state_four_failures (client_ip request_admin) = Some [1, 2, 3, 4]"
    by (simp add: client_ip_def sample_defs)
  have srv: "require_basic_auth_server = require_basic_auth_app
           \<and> compare_digest_bytes (encode_utf8 (or_empty (username ?a)))
                (encode_utf8 (ADMIN_USER sample_config))
           \<and> check_password_app sample_checkpw sample_config (Some (or_empty (password ?a)))
         \<or> require_basic_auth_server = require_basic_auth_server
           \<and> compare_digest_str (or_empty (username ?a)) (ADMIN_USER sample_config) = Inr True
           \<and> check_password_server sample_checkpw sample_config (Some (or_empty (password ?a)))"
    using u p by simp
  have app: "require_basic_auth_app = require_basic_auth_app
           \<and> compare_digest_bytes (encode_utf8 (or_empty (username ?a)))
                (encode_utf8 (ADMIN_USER sample_config))
           \<and> check_password_app sample_checkpw sample_config (Some (or_empty (password ?a)))
         \<or> require_basic_auth_app = require_basic_auth_server
           \<and> compare_digest_str (or_empty (username ?a)) (ADMIN_USER sample_config) = Inr True
           \<and> check_password_server sample_checkpw sample_config (Some (or_empty (password ?a)))"
    using ub pa by simp
  note ts = success_resets_failures_only [OF h1 h2 h3 srv, where view_func = "()"
      and req' = request_wrong and checkpw' = sample_checkpw and clk' = "at_moment 11"
      and a' = ?w]
  note ta = success_resets_failures_only [OF h1 h2 h3 app, where view_func = "()"
      and req' = request_wrong and checkpw' = sample_checkpw and clk' = "at_moment 11"
      and a' = ?w]
  have g1: "fst (require_basic_auth_server sample_checkpw sample_config () request_admin
         (at_moment 10) state_four_failures) = (View (), [Compare_digest, Check_password])"
    by (rule ts [THEN conjunct1])
  have g2: "failed_attempts (snd (require_basic_auth_server sample_checkpw sample_config ()
         request_admin (at_moment 10) state_four_failures)) (client_ip request_admin) = None"
    using ts [THEN conjunct2, THEN conjunct2, THEN conjunct1] by simp
  have a1: "fst (require_basic_auth_app sample_checkpw sample_config () request_admin
         (at_moment 10) state_four_failures) = (View (), [Compare_digest, Check_password])"
    by (rule ta [THEN conjunct1])
  have a2: "failed_attempts (snd (require_basic_auth_app sample_checkpw sample_config ()
         request_admin (at_moment 10) state_four_failures)) (client_ip request_admin) = None"
    using ta [THEN conjunct2, THEN conjunct2, THEN conjunct1] by simp
  have k1: "1 < LOCKOUT_THRESHOLD sample_config"
    by (simp add: sample_config_def)
  have k2: "client_ip request_wrong = client_ip request_admin"
    by (simp add: client_ip_def request_wrong_def request_admin_def)
  have k3: "fst (rate_limit_ok sample_config (client_ip request_wrong) (t_rate (at_moment 11))
       (snd (require_basic_auth_server sample_checkpw sample_config () request_admin
           (at_moment 10) state_four_failures)))"
    by (simp add: model_defs sample_defs)
  have k4: "authorization request_wrong = Some ?w"
    by (simp add: request_wrong_def)
  have k5: "require_basic_auth_server = require_basic_auth_app
                 \<and> \<not> (compare_digest_bytes (encode_utf8 (or_empty (username ?w)))
                         (encode_utf8 (ADMIN_USER sample_config))
                      \<and> check_password_app sample_checkpw sample_config
                           (Some (or_empty (password ?w))))
               \<or> require_basic_auth_server = require_basic_auth_server
                 \<and> (\<exists>b. compare_digest_str (or_empty (username ?w)) (ADMIN_USER sample_config)
                          = Inr b
                      \<and> \<not> (b \<and> check_password_server sample_checkpw sample_config
                                  (Some (or_empty (password ?w)))))"
    by (intro disjI2 conjI refl exI [of _ True]) (simp_all add: model_defs sample_defs)
  have tf: "t_fail (at_moment 11) = 11"
    by (simp add: at_moment_def)
  note c2 = ts [THEN conjunct2, THEN conjunct2, THEN conjunct2, THEN conjunct2, THEN conjunct2,
      rule_format, OF conjI [OF k1 conjI [OF k2 conjI [OF k3 conjI [OF k4 k5]]]], unfolded tf]
  have u': "compare_digest_str (or_empty (Some ''admin'')) (ADMIN_USER sample_config) = Inr True"
    using u by simp
  have p': "check_password_server sample_checkpw sample_config (Some (or_empty (Some ''secret'')))"
    using p by simp
  have ub': "compare_digest_bytes (encode_utf8 (or_empty (Some ''admin'')))
        (encode_utf8 (ADMIN_USER sample_config))"
    using ub by simp
  have pa': "check_password_app sample_checkpw sample_config (Some (or_empty (Some ''secret'')))"
    using pa by simp
  show ?thesis
    using h1 h2 u' p' ub' pa' fa0 g1 g2 a1 a2 k1 c2 by blast
qed

subsection \<open>C1: the five outcomes\<close>

text \<open>The decision tables above give the order of the checks. When the rate limiter rejects,
  in either file, the response is the 429 one and neither a failure sequence nor an expiry
  changes.\<close>

lemma rate_exceeded_touches_nothing:
  assumes "guard = require_basic_auth_app \<or> guard = require_basic_auth_server"
    and "\<not> fst (rate_limit_ok cfg (client_ip req) (t_rate clk) s)"
  shows "fst (guard checkpw cfg view_func req clk s) = (Response too_many, [])
       \<and> failed_attempts (snd (guard checkpw cfg view_func req clk s)) = failed_attempts s
       \<and> lockouts (snd (guard checkpw cfg view_func req clk s)) = lockouts s"
  using assms
  by (auto simp: require_basic_auth_app_table require_basic_auth_server_table Let_def)

text \<open>The decorator of \<^verbatim>\<open>app.py\<close> returns one of the five outcomes, with the status 429, 403 or
  401 (\<open>status_responses\<close>) when it rejects; the decorator of \<^verbatim>\<open>server.py\<close> has a sixth way out.\<close>

lemma app_outcome_one_of_five:
  "fst (fst (require_basic_auth_app checkpw cfg view_func req clk s))
     \<in> {Response too_many, Response blocked, Response (challenge ''Authentication required''),
        Response (challenge ''Invalid credentials''), View view_func}"
  by (simp add: require_basic_auth_app_table Let_def split: option.splits)

lemma server_outcome_one_of_five_or_raise:
  "fst (fst (require_basic_auth_server checkpw cfg view_func req clk s))
     \<in> {Response too_many, Response blocked, Response (challenge ''Authentication required''),
        Response (challenge ''Invalid credentials''), View view_func, Raise TypeError}"
  by (simp add: require_basic_auth_server_table Let_def split: option.splits)

text \<open>
  C1 does not hold of \<^verbatim>\<open>server.py\<close>. A request that is neither rate limited nor locked and
  carries the user name U+00E9 makes \<^verbatim>\<open>hmac.compare_digest\<close> raise \<^verbatim>\<open>TypeError\<close>: the decorator
  returns no response of its own and does not call the view, so none of the five outcomes
  occurs, and no failure is recorded. The decorator of \<^verbatim>\<open>app.py\<close> answers the same request with
  the 401 response for invalid credentials.
\<close>

theorem server_raises_on_latin_user:
  "fst (rate_limit_ok sample_config (client_ip request_latin) 1000 initial_state)
   \<and> \<not> fst (is_locked (client_ip request_latin) 1000 initial_state)
   \<and> fst (fst (require_basic_auth_server sample_checkpw sample_config () request_latin
         (at_moment 1000) initial_state)) = Raise TypeError
   \<and> failed_attempts (snd (require_basic_auth_server sample_checkpw sample_config () request_latin
         (at_moment 1000) initial_state)) = failed_attempts initial_state
   \<and> fst (fst (require_basic_auth_app sample_checkpw sample_config () request_latin
         (at_moment 1000) initial_state)) = Response (challenge ''Invalid credentials'')"
  by (simp add: model_defs sample_defs)

subsection \<open>C6: both comparisons\<close>

text \<open>In \<^verbatim>\<open>app.py\<close> a request with credentials that reaches the verification evaluates both
  comparisons, and is granted exactly when the user name (the empty string when absent) is the
  configured one and \<^verbatim>\<open>check_password\<close> accepts the password (the empty string when absent).\<close>

lemma app_verification_is_conjunction:
  assumes "fst (rate_limit_ok cfg (client_ip req) (t_rate clk) s)"
    and "\<not> fst (is_locked (client_ip req) (t_lock clk) s)"
    and "authorization req = Some a"
  shows "snd (fst (require_basic_auth_app checkpw cfg view_func req clk s))
           = [Compare_digest, Check_password]
       \<and> (fst (fst (require_basic_auth_app checkpw cfg view_func req clk s)) = View view_func
            \<longleftrightarrow> or_empty (username a) = ADMIN_USER cfg
               \<and> check_password_app checkpw cfg (Some (or_empty (password a))))
       \<and> (fst (fst (require_basic_auth_app checkpw cfg view_func req clk s))
             = Response (challenge ''Invalid credentials'')
            \<longleftrightarrow> \<not> (or_empty (username a) = ADMIN_USER cfg
               \<and> check_password_app checkpw cfg (Some (or_empty (password a)))))"
  using assms
  by (auto simp: require_basic_auth_app_table Let_def encode_utf8_inj)

text \<open>The same holds of \<^verbatim>\<open>server.py\<close> when both user names are ASCII.\<close>

lemma server_verification_is_conjunction:
  assumes "fst (rate_limit_ok cfg (client_ip req) (t_rate clk) s)"
    and "\<not> fst (is_locked (client_ip req) (t_lock clk) s)"
    and "authorization req = Some a"
    and "is_ascii (or_empty (username a))" and "is_ascii (ADMIN_USER cfg)"
  shows "snd (fst (require_basic_auth_server checkpw cfg view_func req clk s))
           = [Compare_digest, Check_password]
       \<and> (fst (fst (require_basic_auth_server checkpw cfg view_func req clk s)) = View view_func
            \<longleftrightarrow> or_empty (username a) = ADMIN_USER cfg
               \<and> check_password_server checkpw cfg (Some (or_empty (password a))))
       \<and> (fst (fst (require_basic_auth_server checkpw cfg view_func req clk s))
             = Response (challenge ''Invalid credentials'')
            \<longleftrightarrow> \<not> (or_empty (username a) = ADMIN_USER cfg
               \<and> check_password_server checkpw cfg (Some (or_empty (password a)))))"
  using assms
  by (auto simp: require_basic_auth_server_table Let_def)

text \<open>
  C6 does not hold of \<^verbatim>\<open>server.py\<close>. On the request with the user name U+00E9 the comparison
  of the user name is the only one evaluated: \<^verbatim>\<open>check_password\<close> is never called. \<^verbatim>\<open>app.py\<close>
  evaluates both on the same request.
\<close>

theorem server_skips_password_on_latin_user:
  "authorization request_latin = Some \<lparr>username = Some [CHR 0xE9], password = Some ''secret''\<rparr>
   \<and> snd (fst (require_basic_auth_server sample_checkpw sample_config () request_latin
         (at_moment 1000) initial_state)) = [Compare_digest]
   \<and> snd (fst (require_basic_auth_app sample_checkpw sample_config () request_latin
         (at_moment 1000) initial_state)) = [Compare_digest, Check_password]"
  by (simp add: model_defs sample_defs)

subsection \<open>C10: the two decorators\<close>

text \<open>Where the decorator of \<^verbatim>\<open>server.py\<close> raises nothing, the two decorators return the same
  result and leave the same state; this is so whenever the two user names are ASCII.\<close>

lemma decorators_agree_unless_raise:
  assumes "\<forall>e. fst (fst (require_basic_auth_server checkpw cfg view_func req clk s)) \<noteq> Raise e"
  shows "require_basic_auth_app checkpw cfg view_func req clk s
       = require_basic_auth_server checkpw cfg view_func req clk s"
  using assms
  by (auto simp: require_basic_auth_app_table require_basic_auth_server_table Let_def
      encode_utf8_inj check_password_same split: option.splits if_splits)

lemma decorators_agree_ascii:
  assumes "\<forall>a. authorization req = Some a \<longrightarrow>
      is_ascii (or_empty (username a)) \<and> is_ascii (ADMIN_USER cfg)"
  shows "require_basic_auth_app checkpw cfg view_func req clk s
       = require_basic_auth_server checkpw cfg view_func req clk s"
  using assms
  by (auto simp: require_basic_auth_app_table require_basic_auth_server_table Let_def
      encode_utf8_inj check_password_same split: option.splits if_splits)

text \<open>
  C10 does not hold. On the request with the user name U+00E9, from the same state and with
  the same clock readings, \<^verbatim>\<open>app.py\<close> answers 401 and records a failure at moment 1000, and
  \<^verbatim>\<open>server.py\<close> raises \<^verbatim>\<open>TypeError\<close> and records nothing.
\<close>

theorem decorators_differ_on_latin_user:
  "require_basic_auth_app sample_checkpw sample_config () request_latin (at_moment 1000)
       initial_state
     \<noteq> require_basic_auth_server sample_checkpw sample_config () request_latin (at_moment 1000)
       initial_state
   \<and> failed_attempts (snd (require_basic_auth_app sample_checkpw sample_config () request_latin
         (at_moment 1000) initial_state)) sample_ip = Some [1000]
   \<and> failed_attempts (snd (require_basic_auth_server sample_checkpw sample_config () request_latin
         (at_moment 1000) initial_state)) sample_ip = None"
  by (simp add: model_defs sample_defs)

subsection \<open>C9: bounded failure sequences and justified lockouts\<close>

text \<open>The failure sequence of an identity is a subsequence of the failures recorded for it:
  trimming only drops entries.\<close>

lemma subseq_slice_from: "subseq (slice_from a xs) xs"
  by (simp add: slice_from_def Let_def suffix_drop suffix_imp_subseq)

lemma record_failed_failed_attempts:
  "\<exists>kept. failed_attempts (record_failed cfg ip now s)
       = (failed_attempts s)(ip \<mapsto> kept)
     \<and> subseq kept ((case failed_attempts s ip of None \<Rightarrow> [] | Some l \<Rightarrow> l) @ [now])
     \<and> lockouts (record_failed cfg ip now s)
         = (if LOCKOUT_THRESHOLD cfg
                 \<le> int (length (filter (\<lambda>t. now - t < real_of_int (LOCKOUT_PERIOD cfg)) kept))
            then (lockouts s)(ip \<mapsto> now + real_of_int (LOCKOUT_PERIOD cfg)) else lockouts s)"
proof -
  let ?lst = "(case failed_attempts s ip of None \<Rightarrow> [] | Some l \<Rightarrow> l) @ [now]"
  let ?kept = "if int (length ?lst) > LOCKOUT_THRESHOLD cfg * 2
               then slice_from (- (LOCKOUT_THRESHOLD cfg * 2)) ?lst else ?lst"
  have "subseq ?kept ?lst"
    by (simp add: subseq_slice_from)
  moreover have "failed_attempts (record_failed cfg ip now s) = (failed_attempts s)(ip \<mapsto> ?kept)"
    by (simp add: record_failed_def Let_def)
  moreover have "lockouts (record_failed cfg ip now s)
         = (if LOCKOUT_THRESHOLD cfg
                 \<le> int (length (filter (\<lambda>t. now - t < real_of_int (LOCKOUT_PERIOD cfg)) ?kept))
            then (lockouts s)(ip \<mapsto> now + real_of_int (LOCKOUT_PERIOD cfg)) else lockouts s)"
    by (simp add: record_failed_def Let_def)
  ultimately show ?thesis by blast
qed

lemma record_failed_length:
  assumes "0 < LOCKOUT_THRESHOLD cfg" "failed_attempts (record_failed cfg ip now s) ip = Some l"
  shows "int (length l) \<le> 2 * LOCKOUT_THRESHOLD cfg"
  using assms by (auto simp: record_failed_def Let_def slice_from_neg split: if_splits)

lemma failed_attempts_genuine:
  "failed_attempts (run cfg evs initial_state) ip = Some l \<Longrightarrow> subseq l (failures ip evs)"
proof (induction evs arbitrary: l rule: rev_induct)
  case Nil
  then show ?case by (simp add: run_def initial_state_def)
next
  case (snoc x evs)
  let ?s = "run cfg evs initial_state"
  show ?case
  proof (cases x)
    case (Rate_limit_ok ip' now)
    with snoc show ?thesis by (simp add: run_snoc failures_snoc)
  next
    case (Is_locked ip' now)
    with snoc show ?thesis by (simp add: run_snoc failures_snoc)
  next
    case (Reset ip')
    with snoc show ?thesis
      by (auto simp: run_snoc failures_snoc failed_attempts_pop_def split: if_splits)
  next
    case (Record_failed ip' now)
    obtain kept where k: "failed_attempts (record_failed cfg ip' now ?s)
          = (failed_attempts ?s)(ip' \<mapsto> kept)"
      and sub: "subseq kept ((case failed_attempts ?s ip' of None \<Rightarrow> [] | Some l \<Rightarrow> l) @ [now])"
      using record_failed_failed_attempts [of cfg ip' now ?s] by blast
    show ?thesis
    proof (cases "ip' = ip")
      case False
      with snoc Record_failed k show ?thesis
        by (simp add: run_snoc failures_snoc)
    next
      case True
      have "subseq (case failed_attempts ?s ip of None \<Rightarrow> [] | Some l \<Rightarrow> l) (failures ip evs)"
        using snoc.IH by (cases "failed_attempts ?s ip") simp_all
      then have "subseq ((case failed_attempts ?s ip of None \<Rightarrow> [] | Some l \<Rightarrow> l) @ [now])
          (failures ip evs @ [now])"
        by simp
      with sub True have "subseq kept (failures ip evs @ [now])"
        using subseq_order.trans by blast
      moreover have "l = kept"
        using snoc.prems Record_failed True k by (simp add: run_snoc)
      ultimately show ?thesis
        using Record_failed True by (simp add: failures_snoc)
    qed
  qed
qed

lemma justified_snoc:
  assumes "justified cfg ip e evs"
  shows "justified cfg ip e (evs @ [x])"
proof -
  from assms obtain pre post now where "evs = pre @ Record_failed ip now # post"
    and "e = now + real_of_int (LOCKOUT_PERIOD cfg)"
    and "LOCKOUT_THRESHOLD cfg
            \<le> int (length (filter (\<lambda>t. now - t < real_of_int (LOCKOUT_PERIOD cfg))
                  (failures ip (pre @ [Record_failed ip now]))))"
    unfolding justified_def by blast
  then show ?thesis
    unfolding justified_def
    by (intro exI [of _ pre] exI [of _ "post @ [x]"] exI [of _ now]) simp
qed

lemma lockouts_justified:
  "lockouts (run cfg evs initial_state) ip = Some e \<Longrightarrow> justified cfg ip e evs"
proof (induction evs arbitrary: e rule: rev_induct)
  case Nil
  then show ?case by (simp add: run_def initial_state_def)
next
  case (snoc x evs)
  let ?s = "run cfg evs initial_state"
  show ?case
  proof (cases x)
    case (Rate_limit_ok ip' now)
    with snoc show ?thesis by (simp add: run_snoc justified_snoc)
  next
    case (Is_locked ip' now)
    with snoc.prems have "lockouts ?s ip = Some e"
      by (auto simp: run_snoc is_locked_lockouts split: if_splits)
    with snoc.IH show ?thesis by (simp add: justified_snoc)
  next
    case (Reset ip')
    with snoc show ?thesis by (simp add: run_snoc justified_snoc failed_attempts_pop_def)
  next
    case (Record_failed ip' now)
    obtain kept where k: "failed_attempts (record_failed cfg ip' now ?s)
          = (failed_attempts ?s)(ip' \<mapsto> kept)"
      and lo: "lockouts (record_failed cfg ip' now ?s)
         = (if LOCKOUT_THRESHOLD cfg
                 \<le> int (length (filter (\<lambda>t. now - t < real_of_int (LOCKOUT_PERIOD cfg)) kept))
            then (lockouts ?s)(ip' \<mapsto> now + real_of_int (LOCKOUT_PERIOD cfg)) else lockouts ?s)"
      using record_failed_failed_attempts [of cfg ip' now ?s] by blast
    show ?thesis
    proof (cases "ip' = ip \<and> LOCKOUT_THRESHOLD cfg
                 \<le> int (length (filter (\<lambda>t. now - t < real_of_int (LOCKOUT_PERIOD cfg)) kept))")
      case False
      with snoc.prems Record_failed lo have "lockouts ?s ip = Some e"
        by (auto simp: run_snoc split: if_splits)
      with snoc.IH show ?thesis by (simp add: justified_snoc)
    next
      case True
      then have e: "e = now + real_of_int (LOCKOUT_PERIOD cfg)"
        using snoc.prems Record_failed lo by (simp add: run_snoc)
      have "failed_attempts (run cfg (evs @ [x]) initial_state) ip = Some kept"
        using Record_failed True k by (simp add: run_snoc)
      then have "subseq kept (failures ip (evs @ [x]))"
        by (rule failed_attempts_genuine)
      then have "length (filter (\<lambda>t. now - t < real_of_int (LOCKOUT_PERIOD cfg)) kept)
          \<le> length (filter (\<lambda>t. now - t < real_of_int (LOCKOUT_PERIOD cfg)) (failures ip (evs @ [x])))"
        by (intro list_emb_length [where P = "(=)"] subseq_filter)
      with True have "LOCKOUT_THRESHOLD cfg
          \<le> int (length (filter (\<lambda>t. now - t < real_of_int (LOCKOUT_PERIOD cfg))
                (failures ip (evs @ [Record_failed ip now]))))"
        using Record_failed by simp
      with e True Record_failed show ?thesis
        unfolding justified_def by (intro exI [of _ evs] exI [of _ "[]"] exI [of _ now]) simp
    qed
  qed
qed

lemma app_outcome_cases:
  "fst (fst (require_basic_auth_app checkpw cfg view_func req clk s))
       = Response (challenge ''Invalid credentials'')
   \<or> fst (fst (require_basic_auth_app checkpw cfg view_func req clk s)) = View view_func
   \<or> require_basic_auth_app checkpw cfg view_func req clk s
       = ((Response too_many, []), run cfg [Rate_limit_ok (client_ip req) (t_rate clk)] s)
   \<or> require_basic_auth_app checkpw cfg view_func req clk s
       = ((Response blocked, []), run cfg [Rate_limit_ok (client_ip req) (t_rate clk)] s)
   \<or> require_basic_auth_app checkpw cfg view_func req clk s
       = ((Response (challenge ''Authentication required''), []),
          run cfg [Rate_limit_ok (client_ip req) (t_rate clk),
                   Is_locked (client_ip req) (t_lock clk)] s)"
  by (simp add: require_basic_auth_app_table Let_def run_def split: option.splits)

lemma server_outcome_cases:
  "fst (fst (require_basic_auth_server checkpw cfg view_func req clk s))
       = Response (challenge ''Invalid credentials'')
   \<or> fst (fst (require_basic_auth_server checkpw cfg view_func req clk s)) = View view_func
   \<or> require_basic_auth_server checkpw cfg view_func req clk s
       = ((Response too_many, []), run cfg [Rate_limit_ok (client_ip req) (t_rate clk)] s)
   \<or> require_basic_auth_server checkpw cfg view_func req clk s
       = ((Response blocked, []), run cfg [Rate_limit_ok (client_ip req) (t_rate clk)] s)
   \<or> require_basic_auth_server checkpw cfg view_func req clk s
       = ((Response (challenge ''Authentication required''), []),
          run cfg [Rate_limit_ok (client_ip req) (t_rate clk),
                   Is_locked (client_ip req) (t_lock clk)] s)
   \<or> require_basic_auth_server checkpw cfg view_func req clk s
       = ((Raise TypeError, [Compare_digest]),
          run cfg [Rate_limit_ok (client_ip req) (t_rate clk),
                   Is_locked (client_ip req) (t_lock clk)] s)"
  by (simp add: require_basic_auth_server_table Let_def run_def split: option.splits)

text \<open>Every request is a short run of events, and it records a failure only when it answers
  with the 401 response for invalid credentials.\<close>

lemma guard_state_is_run:
  assumes "guard = require_basic_auth_app \<or> guard = require_basic_auth_server"
  shows "\<exists>evs. snd (guard checkpw cfg view_func req clk s) = run cfg evs s
           \<and> (\<forall>ip. failures ip evs =
                 (if fst (fst (guard checkpw cfg view_func req clk s))
                       = Response (challenge ''Invalid credentials'') \<and> ip = client_ip req
                  then [t_fail clk] else []))"
proof -
  let ?ip = "client_ip req"
  let ?r = "Rate_limit_ok ?ip (t_rate clk)" and ?l = "Is_locked ?ip (t_lock clk)"
  let ?g = "guard checkpw cfg view_func req clk s"
  let ?bad = "Response (challenge ''Invalid credentials'') :: 'a result"
  consider (mismatch) "fst (fst ?g) = ?bad"
    | (granted) "fst (fst ?g) = View view_func"
    | (short) "fst (fst ?g) \<noteq> ?bad" "snd ?g = run cfg [?r] s"
    | (long) "fst (fst ?g) \<noteq> ?bad" "snd ?g = run cfg [?r, ?l] s"
  proof -
    have "fst (fst ?g) = ?bad \<or> fst (fst ?g) = View view_func
        \<or> (fst (fst ?g) \<noteq> ?bad \<and> snd ?g = run cfg [?r] s)
        \<or> (fst (fst ?g) \<noteq> ?bad \<and> snd ?g = run cfg [?r, ?l] s)"
      using assms
    proof
      assume g: "guard = require_basic_auth_app"
      show ?thesis
        using app_outcome_cases [of checkpw cfg view_func req clk s]
        unfolding g by (elim disjE) (simp_all add: responses_distinct [symmetric])
    next
      assume g: "guard = require_basic_auth_server"
      show ?thesis
        using server_outcome_cases [of checkpw cfg view_func req clk s]
        unfolding g by (elim disjE) (simp_all add: responses_distinct [symmetric])
    qed
    then show thesis
      using mismatch granted short long by blast
  qed
  then show ?thesis
  proof cases
    case mismatch
    have "snd ?g = run cfg [?r, ?l, Record_failed ?ip (t_fail clk)] s"
      using guard_mismatch_state [OF assms mismatch] by (simp add: run_def)
    with mismatch show ?thesis
      by (intro exI [of _ "[?r, ?l, Record_failed ?ip (t_fail clk)]"]) (simp add: failures_def)
  next
    case granted
    have "snd ?g = run cfg [?r, ?l, Reset ?ip] s"
      using guard_granted_state(2) [OF assms granted] by (simp add: run_def)
    with granted show ?thesis
      by (intro exI [of _ "[?r, ?l, Reset ?ip]"]) (simp add: failures_def)
  next
    case short
    then show ?thesis
      by (intro exI [of _ "[?r]"]) (simp add: failures_def)
  next
    case long
    then show ?thesis
      by (intro exI [of _ "[?r, ?l]"]) (simp add: failures_def)
  qed
qed

text \<open>With a threshold of at least 1, the failure sequence that \<^verbatim>\<open>record_failed\<close> leaves for the
  identity has at most \<open>2 \<times> threshold\<close> entries, from any state. For every threshold, in every
  state reached from the empty dictionaries by calls of the four operations, an expiry stored
  for an identity was set by a recorded failure of that identity at some moment \<open>t\<close>, and at
  least \<open>threshold\<close> of the failures recorded for the identity up to that one lie less than
  \<^verbatim>\<open>LOCKOUT_PERIOD\<close> before \<open>t\<close>.\<close>

lemma failures_bounded_and_lockouts_justified:
  "(0 < LOCKOUT_THRESHOLD cfg \<longrightarrow>
      (\<forall>l. failed_attempts (record_failed cfg ip now s) ip = Some l \<longrightarrow>
           int (length l) \<le> 2 * LOCKOUT_THRESHOLD cfg))
   \<and> (\<forall>e. lockouts (run cfg evs initial_state) ip = Some e \<longrightarrow>
         (\<exists>pre post t. evs = pre @ Record_failed ip t # post
            \<and> e = t + real_of_int (LOCKOUT_PERIOD cfg)
            \<and> LOCKOUT_THRESHOLD cfg
                \<le> int (length (filter (\<lambda>u. t - u < real_of_int (LOCKOUT_PERIOD cfg))
                      (failures ip (pre @ [Record_failed ip t]))))))"
  using record_failed_length [of cfg ip now s] lockouts_justified [of cfg evs ip]
  unfolding justified_def by blast

text \<open>Three failures, each after the lockout of the one before has run out, leave three
  entries.\<close>

lemma failures_grow_at_threshold_zero:
  "failed_attempts (run (sample_config\<lparr>LOCKOUT_THRESHOLD := 0\<rparr>)
       [Record_failed sample_ip 1000, Record_failed sample_ip 1400, Record_failed sample_ip 1800]
       initial_state) sample_ip = Some [1000, 1400, 1800]
   \<and> \<not> int (length [1000, 1400, 1800 :: real])
         \<le> 2 * LOCKOUT_THRESHOLD (sample_config\<lparr>LOCKOUT_THRESHOLD := 0\<rparr>)"
  by (simp add: run_def record_failed_def slice_from_def Let_def sample_defs)

text \<open>
  C9 does not hold at the threshold 0. The first failure of an identity takes the branch under
  \<^verbatim>\<open># trim history\<close>, whose slice \<^verbatim>\<open>lst[-0:]\<close> keeps the whole list, and leaves a sequence of one
  entry where the claim says at most \<open>2 \<times> threshold = 0\<close>. Nothing is dropped at any later
  call either, so the sequence of an identity grows with every failure.
\<close>

theorem first_failure_exceeds_zero_bound:
  "failed_attempts (record_failed (sample_config\<lparr>LOCKOUT_THRESHOLD := 0\<rparr>) sample_ip 1000
       initial_state) sample_ip = Some [1000]
   \<and> \<not> int (length [1000 :: real])
         \<le> 2 * LOCKOUT_THRESHOLD (sample_config\<lparr>LOCKOUT_THRESHOLD := 0\<rparr>)"
  by (simp add: record_failed_def slice_from_def Let_def sample_defs)

subsection \<open>C3: the sliding window\<close>

text \<open>When no earlier call read a later clock, the window that a call compares with the
  maximum is the window of the start together with the moments of all calls of the identity
  so far, filtered by the distance to the current moment.\<close>

lemma rate_state_append:
  "rate_state cfg (cs @ ds) s = rate_state cfg ds (rate_state cfg cs s)"
  by (induction cs arbitrary: s) simp_all

lemma rate_decisions_append:
  "rate_decisions cfg (cs @ ds) s
     = rate_decisions cfg cs s @ rate_decisions cfg ds (rate_state cfg cs s)"
  by (induction cs arbitrary: s) simp_all

lemma length_rate_decisions [simp]: "length (rate_decisions cfg cs s) = length cs"
  by (induction cs arbitrary: s) simp_all

lemma calls_of_snoc: "calls_of ip (cs @ [c]) = calls_of ip cs @ (if fst c = ip then [snd c] else [])"
  by (simp add: calls_of_def)

lemma window_of_rate_limit_ok:
  "window_of (snd (rate_limit_ok cfg ip' now s)) ip =
     (if ip' = ip
      then filter (\<lambda>x. now - x \<le> real_of_int (RATE_LIMIT_WINDOW cfg)) (window_of s ip @ [now])
      else window_of s ip)"
  by (simp add: rate_limit_ok_def window_of_def Let_def)

lemma rate_limit_ok_decision:
  "fst (rate_limit_ok cfg ip now s) \<longleftrightarrow>
     int (length (filter (\<lambda>x. now - x \<le> real_of_int (RATE_LIMIT_WINDOW cfg))
       (window_of s ip @ [now]))) \<le> RATE_LIMIT_MAX cfg"
  by (simp add: rate_limit_ok_def window_of_def Let_def)

lemma filter_later:
  fixes t u w :: real
  assumes "u \<le> t"
  shows "filter (\<lambda>x. t - x \<le> w) (filter (\<lambda>x. u - x \<le> w) xs) = filter (\<lambda>x. t - x \<le> w) xs"
  using assms by (induction xs) auto

lemma window_closed_form:
  assumes "\<forall>c \<in> set cs. snd c \<le> t"
  shows "filter (\<lambda>x. t - x \<le> real_of_int (RATE_LIMIT_WINDOW cfg)) (window_of (rate_state cfg cs s) ip)
       = filter (\<lambda>x. t - x \<le> real_of_int (RATE_LIMIT_WINDOW cfg)) (window_of s ip @ calls_of ip cs)"
  using assms
proof (induction cs rule: rev_induct)
  case Nil
  then show ?case by (simp add: calls_of_def)
next
  case (snoc c cs)
  then have le: "snd c \<le> t" and IH: "filter (\<lambda>x. t - x \<le> real_of_int (RATE_LIMIT_WINDOW cfg))
        (window_of (rate_state cfg cs s) ip)
       = filter (\<lambda>x. t - x \<le> real_of_int (RATE_LIMIT_WINDOW cfg)) (window_of s ip @ calls_of ip cs)"
    by simp_all
  show ?case
  proof (cases "fst c = ip")
    case False
    with IH show ?thesis
      by (simp add: rate_state_append window_of_rate_limit_ok calls_of_snoc)
  next
    case True
    have "window_of (rate_state cfg (cs @ [c]) s) ip
        = filter (\<lambda>x. snd c - x \<le> real_of_int (RATE_LIMIT_WINDOW cfg))
            (window_of (rate_state cfg cs s) ip @ [snd c])"
      using True by (simp add: rate_state_append window_of_rate_limit_ok)
    then have "filter (\<lambda>x. t - x \<le> real_of_int (RATE_LIMIT_WINDOW cfg))
            (window_of (rate_state cfg (cs @ [c]) s) ip)
        = filter (\<lambda>x. t - x \<le> real_of_int (RATE_LIMIT_WINDOW cfg))
            (window_of (rate_state cfg cs s) ip @ [snd c])"
      by (simp only: filter_later [OF le])
    also have "\<dots> = filter (\<lambda>x. t - x \<le> real_of_int (RATE_LIMIT_WINDOW cfg))
            (window_of s ip @ calls_of ip (cs @ [c]))"
      using True IH by (simp add: calls_of_snoc)
    finally show ?thesis .
  qed
qed

lemma decision_closed_form:
  assumes "\<forall>d \<in> set pre. snd d \<le> snd c"
  shows "fst (rate_limit_ok cfg (fst c) (snd c) (rate_state cfg pre s)) \<longleftrightarrow>
     int (length (filter (\<lambda>x. snd c - x \<le> real_of_int (RATE_LIMIT_WINDOW cfg))
       (window_of s (fst c) @ calls_of (fst c) (pre @ [c])))) \<le> RATE_LIMIT_MAX cfg"
  using window_closed_form [OF assms, of cfg s "fst c"]
  by (simp add: rate_limit_ok_decision calls_of_snoc)

lemma sorted_snoc_le:
  assumes "sorted (map snd (pre @ c # post))"
  shows "\<forall>d \<in> set pre. snd d \<le> snd c"
  using assms by (auto simp: sorted_append)

lemma decision_at:
  "rate_decisions cfg (pre @ c # post) s ! length pre
     = fst (rate_limit_ok cfg (fst c) (snd c) (rate_state cfg pre s))"
  by (simp add: rate_decisions_append nth_append)

lemma admitted_in_le_calls:
  "length (filter (\<lambda>d. fst (fst d) = ip \<and> snd d \<and> lo \<le> snd (fst d) \<and> snd (fst d) \<le> hi)
       (zip cs ds))
     \<le> length (filter (\<lambda>x. lo \<le> x) (calls_of ip cs))"
proof (induction cs arbitrary: ds)
  case Nil
  then show ?case by simp
next
  case (Cons c cs)
  show ?case
  proof (cases ds)
    case Nil
    then show ?thesis by simp
  next
    case (Cons d ds')
    with Cons.IH [of ds'] show ?thesis
      by (auto simp: calls_of_def)
  qed
qed

lemma admitted_in_snoc:
  "admitted_in cfg ip lo hi (cs @ [c]) s
     = admitted_in cfg ip lo hi cs s
       @ (if fst c = ip \<and> fst (rate_limit_ok cfg (fst c) (snd c) (rate_state cfg cs s))
             \<and> lo \<le> snd c \<and> snd c \<le> hi
          then [(c, True)] else [])"
  by (auto simp: admitted_in_def rate_decisions_append)

lemma length_filter_mono:
  assumes "\<And>x. P x \<Longrightarrow> Q x"
  shows "length (filter P xs) \<le> length (filter Q xs)"
  using assms by (induction xs) auto

lemma admitted_in_bound:
  assumes "sorted (map snd cs)"
  shows "length (admitted_in cfg ip (hi - real_of_int (RATE_LIMIT_WINDOW cfg)) hi cs s)
           \<le> nat (RATE_LIMIT_MAX cfg)"
  using assms
proof (induction cs rule: rev_induct)
  case Nil
  then show ?case by (simp add: admitted_in_def)
next
  case (snoc c cs)
  let ?W = "real_of_int (RATE_LIMIT_WINDOW cfg)"
  from snoc.prems have sorted: "sorted (map snd cs)" and le: "\<forall>d \<in> set cs. snd d \<le> snd c"
    by (auto simp: sorted_append)
  show ?case
  proof (cases "fst c = ip \<and> fst (rate_limit_ok cfg (fst c) (snd c) (rate_state cfg cs s))
             \<and> hi - ?W \<le> snd c \<and> snd c \<le> hi")
    case False
    with snoc.IH [OF sorted] show ?thesis
      by (auto simp: admitted_in_snoc)
  next
    case True
    then have ip: "fst c = ip" and ok: "fst (rate_limit_ok cfg (fst c) (snd c) (rate_state cfg cs s))"
      and lo: "hi - ?W \<le> snd c" and hi: "snd c \<le> hi"
      by blast+
    have "length (admitted_in cfg ip (hi - ?W) hi cs s)
        \<le> length (filter (\<lambda>x. hi - ?W \<le> x) (calls_of ip cs))"
      unfolding admitted_in_def by (rule admitted_in_le_calls)
    also have "\<dots> \<le> length (filter (\<lambda>x. snd c - x \<le> ?W) (calls_of ip cs))"
      using hi by (intro length_filter_mono) simp
    finally have a: "length (admitted_in cfg ip (hi - ?W) hi cs s)
        \<le> length (filter (\<lambda>x. snd c - x \<le> ?W) (calls_of ip cs))" .
    have W0: "0 \<le> ?W"
      using lo hi by simp
    have "int (length (filter (\<lambda>x. snd c - x \<le> ?W) (window_of s ip @ calls_of ip (cs @ [c]))))
        \<le> RATE_LIMIT_MAX cfg"
      using decision_closed_form [OF le, of cfg s] ok ip by simp
    then have "int (length (filter (\<lambda>x. snd c - x \<le> ?W) (calls_of ip cs))) + 1
        \<le> RATE_LIMIT_MAX cfg"
      using ip W0 by (simp add: calls_of_snoc)
    with a have "int (length (admitted_in cfg ip (hi - ?W) hi cs s)) + 1 \<le> RATE_LIMIT_MAX cfg"
      by linarith
    then have "Suc (length (admitted_in cfg ip (hi - ?W) hi cs s)) \<le> nat (RATE_LIMIT_MAX cfg)"
      by linarith
    moreover have "admitted_in cfg ip (hi - ?W) hi (cs @ [c]) s
        = admitted_in cfg ip (hi - ?W) hi cs s @ [(c, True)]"
      by (subst admitted_in_snoc) (use True in auto)
    ultimately show ?thesis
      by simp
  qed
qed

lemma surplus_rejected:
  assumes "sorted (map snd (pre @ c # post))"
    and "RATE_LIMIT_MAX cfg
          < int (length (filter (\<lambda>x. snd c - x \<le> real_of_int (RATE_LIMIT_WINDOW cfg))
              (calls_of (fst c) (pre @ [c]))))"
  shows "\<not> rate_decisions cfg (pre @ c # post) s ! length pre"
proof -
  have "int (length (filter (\<lambda>x. snd c - x \<le> real_of_int (RATE_LIMIT_WINDOW cfg))
              (calls_of (fst c) (pre @ [c]))))
      \<le> int (length (filter (\<lambda>x. snd c - x \<le> real_of_int (RATE_LIMIT_WINDOW cfg))
              (window_of s (fst c) @ calls_of (fst c) (pre @ [c]))))"
    by simp
  with assms(2) show ?thesis
    using decision_closed_form [OF sorted_snoc_le [OF assms(1)], of cfg s]
    by (simp add: decision_at)
qed

lemma record_failed_rate_windows [simp]:
  "rate_windows (record_failed cfg ip now s) = rate_windows s"
  by (simp add: record_failed_def Let_def)

text \<open>In both decorators the rate limiter is the first check of every request, the only writer
  of the rate windows, and the 429 response is its rejection.\<close>

lemma guard_rate_limiter:
  assumes "guard = require_basic_auth_app \<or> guard = require_basic_auth_server"
  shows "rate_windows (snd (guard checkpw cfg view_func req clk s))
           = rate_windows (snd (rate_limit_ok cfg (client_ip req) (t_rate clk) s))
       \<and> (fst (fst (guard checkpw cfg view_func req clk s)) = Response too_many
            \<longleftrightarrow> \<not> fst (rate_limit_ok cfg (client_ip req) (t_rate clk) s))"
  using assms
  by (auto simp: require_basic_auth_app_table require_basic_auth_server_table Let_def
      failed_attempts_pop_def responses_distinct responses_distinct [symmetric]
      split: option.splits if_splits)

text \<open>
  C3. Every call of \<^verbatim>\<open>rate_limit_ok\<close> appends the current moment to the window of the identity,
  keeps the entries \<open>t\<close> with \<open>now - t \<le> RATE_LIMIT_WINDOW\<close>, stores the result and admits the call
  exactly when its length is at most \<^verbatim>\<open>RATE_LIMIT_MAX\<close>; with a window of at least 0 seconds the
  current moment is in the stored window, also when the call is rejected. For a sequence of
  calls whose clock readings do not decrease, from any state: of the calls of one identity at
  a moment within \<^verbatim>\<open>RATE_LIMIT_WINDOW\<close> before any moment \<open>hi\<close>, at most \<^verbatim>\<open>RATE_LIMIT_MAX\<close>
  are admitted; and a call that is, counting itself, at least the \<open>(RATE_LIMIT_MAX + 1)\<close>-th
  call of its identity within the window that ends at it is rejected.
\<close>

theorem sliding_window_limit:
  assumes "sorted (map snd cs)"
  shows "rate_limit_ok cfg ip now s =
           (int (length (filter (\<lambda>t. now - t \<le> real_of_int (RATE_LIMIT_WINDOW cfg))
                   (window_of s ip @ [now]))) \<le> RATE_LIMIT_MAX cfg,
            s\<lparr>rate_windows := (rate_windows s)(ip \<mapsto>
                 filter (\<lambda>t. now - t \<le> real_of_int (RATE_LIMIT_WINDOW cfg))
                   (window_of s ip @ [now]))\<rparr>)
       \<and> (0 \<le> RATE_LIMIT_WINDOW cfg \<longrightarrow>
            now \<in> set (window_of (snd (rate_limit_ok cfg ip now s)) ip))
       \<and> length (admitted_in cfg ip (hi - real_of_int (RATE_LIMIT_WINDOW cfg)) hi cs s)
            \<le> nat (RATE_LIMIT_MAX cfg)
       \<and> (\<forall>pre c post. cs = pre @ c # post
              \<and> RATE_LIMIT_MAX cfg
                  < int (length (filter (\<lambda>x. snd c - x \<le> real_of_int (RATE_LIMIT_WINDOW cfg))
                      (calls_of (fst c) (pre @ [c]))))
            \<longrightarrow> \<not> rate_decisions cfg cs s ! length pre)"
proof -
  have "rate_limit_ok cfg ip now s =
           (int (length (filter (\<lambda>t. now - t \<le> real_of_int (RATE_LIMIT_WINDOW cfg))
                   (window_of s ip @ [now]))) \<le> RATE_LIMIT_MAX cfg,
            s\<lparr>rate_windows := (rate_windows s)(ip \<mapsto>
                 filter (\<lambda>t. now - t \<le> real_of_int (RATE_LIMIT_WINDOW cfg))
                   (window_of s ip @ [now]))\<rparr>)"
    by (simp add: rate_limit_ok_def window_of_def Let_def)
  moreover have "0 \<le> RATE_LIMIT_WINDOW cfg \<longrightarrow>
            now \<in> set (window_of (snd (rate_limit_ok cfg ip now s)) ip)"
    by (simp add: window_of_rate_limit_ok)
  moreover note admitted_in_bound [OF assms, of cfg ip hi s]
  moreover have "\<not> rate_decisions cfg cs s ! length pre"
    if "cs = pre @ c # post"
      and "RATE_LIMIT_MAX cfg
                  < int (length (filter (\<lambda>x. snd c - x \<le> real_of_int (RATE_LIMIT_WINDOW cfg))
                      (calls_of (fst c) (pre @ [c]))))"
    for pre c post
    using surplus_rejected [of pre c post cfg s] assms that by simp
  ultimately show ?thesis by blast
qed

theorem sliding_window_limit_witness:
  "sorted (map snd [(sample_ip, 0 :: real), (sample_ip, 1), (sample_ip, 2)])
   \<and> rate_decisions (sample_config\<lparr>RATE_LIMIT_MAX := 2\<rparr>)
        [(sample_ip, 0), (sample_ip, 1), (sample_ip, 2)] initial_state = [True, True, False]
   \<and> length (admitted_in (sample_config\<lparr>RATE_LIMIT_MAX := 2\<rparr>) sample_ip
        (2 - real_of_int (RATE_LIMIT_WINDOW (sample_config\<lparr>RATE_LIMIT_MAX := 2\<rparr>))) 2
        [(sample_ip, 0), (sample_ip, 1), (sample_ip, 2)] initial_state)
       \<le> nat (RATE_LIMIT_MAX (sample_config\<lparr>RATE_LIMIT_MAX := 2\<rparr>))
   \<and> RATE_LIMIT_MAX (sample_config\<lparr>RATE_LIMIT_MAX := 2\<rparr>)
       < int (length (filter
           (\<lambda>x. 2 - x \<le> real_of_int (RATE_LIMIT_WINDOW (sample_config\<lparr>RATE_LIMIT_MAX := 2\<rparr>)))
           (calls_of sample_ip ([(sample_ip, 0), (sample_ip, 1)] @ [(sample_ip, 2)]))))
   \<and> \<not> rate_decisions (sample_config\<lparr>RATE_LIMIT_MAX := 2\<rparr>)
        [(sample_ip, 0), (sample_ip, 1), (sample_ip, 2)] initial_state
        ! length [(sample_ip, 0 :: real), (sample_ip, 1)]"
proof -
  let ?cfg = "sample_config\<lparr>RATE_LIMIT_MAX := 2\<rparr>"
  let ?cs = "[(sample_ip, 0 :: real), (sample_ip, 1), (sample_ip, 2)]"
  have h1: "sorted (map snd ?cs)"
    by simp
  have h2: "rate_decisions ?cfg ?cs initial_state = [True, True, False]"
    by (simp add: rate_limit_ok_def Let_def sample_config_def initial_state_def)
  have h3: "?cs = [(sample_ip, 0), (sample_ip, 1)] @ (sample_ip, 2) # []"
    by simp
  have h4: "RATE_LIMIT_MAX ?cfg
       < int (length (filter (\<lambda>x. snd (sample_ip, 2 :: real) - x \<le> real_of_int (RATE_LIMIT_WINDOW ?cfg))
           (calls_of (fst (sample_ip, 2 :: real)) ([(sample_ip, 0), (sample_ip, 1)] @ [(sample_ip, 2)]))))"
    by (simp add: calls_of_def sample_config_def)
  note t = sliding_window_limit [OF h1, of ?cfg sample_ip 0 initial_state 2]
  note a = t [THEN conjunct2, THEN conjunct2, THEN conjunct1]
  note b = t [THEN conjunct2, THEN conjunct2, THEN conjunct2, rule_format, OF conjI [OF h3 h4]]
  show ?thesis
    using h1 h2 h4 a b by simp
qed

subsection \<open>The scenarios of the specification\<close>

text \<open>Threshold 5 and period 300: five failures at the moments 0 to 4, then the right
  credentials at moment 5 are answered 403, and at moment 305 they are granted. Window 60 and
  maximum 15: fifteen calls within ten seconds are admitted and the sixteenth, at second 11,
  is rejected.\<close>

lemma scenario_lockout_app:
  "serve (require_basic_auth_app sample_checkpw) sample_config
     [(request_wrong, 0), (request_wrong, 1), (request_wrong, 2), (request_wrong, 3),
      (request_wrong, 4), (request_admin, 5), (request_admin, 305)] initial_state
   = [Response (challenge ''Invalid credentials''), Response (challenge ''Invalid credentials''),
      Response (challenge ''Invalid credentials''), Response (challenge ''Invalid credentials''),
      Response (challenge ''Invalid credentials''), Response blocked, View ()]"
  by (simp add: model_defs sample_defs)

lemma scenario_lockout_server:
  "serve (require_basic_auth_server sample_checkpw) sample_config
     [(request_wrong, 0), (request_wrong, 1), (request_wrong, 2), (request_wrong, 3),
      (request_wrong, 4), (request_admin, 5), (request_admin, 305)] initial_state
   = [Response (challenge ''Invalid credentials''), Response (challenge ''Invalid credentials''),
      Response (challenge ''Invalid credentials''), Response (challenge ''Invalid credentials''),
      Response (challenge ''Invalid credentials''), Response blocked, View ()]"
  by (simp add: model_defs sample_defs)

lemma scenario_rate_limit:
  "rate_decisions sample_config
     [(sample_ip, 0), (sample_ip, 0.5), (sample_ip, 1), (sample_ip, 2), (sample_ip, 3),
      (sample_ip, 4), (sample_ip, 5), (sample_ip, 6), (sample_ip, 7), (sample_ip, 8),
      (sample_ip, 8.5), (sample_ip, 9), (sample_ip, 9.5), (sample_ip, 9.7), (sample_ip, 10),
      (sample_ip, 11)] initial_state
   = [True, True, True, True, True, True, True, True, True, True, True, True, True, True, True,
      False]"
  by (simp add: rate_limit_ok_def Let_def sample_config_def initial_state_def)

end
